theory Spec2Isabelle
  imports Main
begin

section \<open>Strings and JavaScript truthiness\<close>

text \<open>
  JavaScript strings are modelled as \<open>string\<close> (lists of \<open>char\<close>), a value that may be
  \<open>null\<close> or \<open>undefined\<close> as an \<open>option\<close>. Only the ASCII letters take part in the case
  mappings below and only the ASCII white space in \<open>trim\<close>; what \<open>toUpperCase\<close>,
  \<open>toLowerCase\<close> and \<open>trim\<close> do to code points beyond ASCII is outside the model.
\<close>

definition lower_letters :: string where
  "lower_letters = ''abcdefghijklmnopqrstuvwxyz''"

definition upper_letters :: string where
  "upper_letters = ''ABCDEFGHIJKLMNOPQRSTUVWXYZ''"

definition upper_char :: "char \<Rightarrow> char" where
  "upper_char c = (case map_of (zip lower_letters upper_letters) c of Some u \<Rightarrow> u | None \<Rightarrow> c)"

definition lower_char :: "char \<Rightarrow> char" where
  "lower_char c = (case map_of (zip upper_letters lower_letters) c of Some l \<Rightarrow> l | None \<Rightarrow> c)"

definition toUpperCase :: "string \<Rightarrow> string" where
  "toUpperCase s = map upper_char s"

definition toLowerCase :: "string \<Rightarrow> string" where
  "toLowerCase s = map lower_char s"

definition is_space :: "char \<Rightarrow> bool" where
  "is_space c = (c \<in> set [CHR '' '', CHR 0x09, CHR 0x0A, CHR 0x0B, CHR 0x0C, CHR 0x0D])"

definition trim :: "string \<Rightarrow> string" where
  "trim s = rev (dropWhile is_space (rev (dropWhile is_space s)))"

text \<open>The regular expression class \<open>\d\<close>: the ten ASCII digits.\<close>

definition is_digit :: "char \<Rightarrow> bool" where
  "is_digit c = (c \<in> set ''0123456789'')"

text \<open>
  A string-valued expression used as a condition: \<open>null\<close>, \<open>undefined\<close> and the empty
  string are false, every other string is true.
\<close>

definition truthy :: "string option \<Rightarrow> bool" where
  "truthy v = (case v of None \<Rightarrow> False | Some s \<Rightarrow> s \<noteq> [])"

section \<open>Helpers of the server\<close>

subsection \<open>generateRewardCode\<close>

text \<open>
  \<open>Math.floor(Math.random() * chars.length)\<close> is an index below 32. The model takes the
  draws as a function from the loop counter to that index; \<open>charAt\<close> gives the empty
  string outside the alphabet.
\<close>

definition chars :: string where
  "chars = ''ABCDEFGHJKLMNPQRSTUVWXYZ23456789''"

definition charAt :: "string \<Rightarrow> nat \<Rightarrow> string" where
  "charAt s i = (if i < length s then [s ! i] else [])"

function reward_loop :: "(nat \<Rightarrow> nat) \<Rightarrow> nat \<Rightarrow> string \<Rightarrow> string" where
  "reward_loop rnd i code =
     (if i < 6 then reward_loop rnd (i + 1) (code @ charAt chars (rnd i)) else code)"
  by pat_completeness auto
termination
  by (relation "measure (\<lambda>(rnd, i, code). 6 - i)") auto

definition generateRewardCode :: "(nat \<Rightarrow> nat) \<Rightarrow> string" where
  "generateRewardCode rnd = reward_loop rnd 0 ''CP''"

subsection \<open>normalizePhone\<close>

definition normalizePhone :: "string option \<Rightarrow> string option" where
  "normalizePhone phone =
     (if \<not> truthy phone then None
      else
        let digits = filter is_digit (the phone) in
        if length digits = 10 then Some digits
        else if length digits = 11 \<and> hd digits = CHR ''1'' then Some (drop 1 digits)
        else None)"

subsection \<open>The customers table and calculateMembershipScore\<close>

text \<open>
  A row of \<open>customers\<close>. Identifiers (UUIDs in the schema) are natural numbers and
  time stamps are ticks of a clock. Nullable columns are options; \<open>visit_count\<close>,
  \<open>membership_score\<close> and \<open>is_membership_prospect\<close> have defaults and are never
  written as \<open>NULL\<close>.
\<close>

record customer =
  cust_id :: nat
  course_id :: nat
  first_name :: "string option"
  last_name :: "string option"
  email :: "string option"
  phone :: "string option"
  zip_code :: "string option"
  booking_source :: "string option"
  is_local :: "bool option"
  play_frequency :: "string option"
  member_elsewhere :: "bool option"
  first_time_visitor :: "bool option"
  visit_count :: int
  last_visit_at :: "nat option"
  membership_score :: int
  is_membership_prospect :: bool
  source :: string
  source_id :: "string option"

definition calculateMembershipScore :: "customer \<Rightarrow> int" where
  "calculateMembershipScore c =
     (let score = 0;
          score = (if is_local c = Some True then score + 30 else score);
          score = (if play_frequency c = Some ''weekly'' then score + 25
                   else if play_frequency c = Some ''monthly'' then score + 15
                   else if play_frequency c = Some ''rarely'' then score + 5
                   else score);
          score = (if visit_count c \<ge> 5 then score + 20
                   else if visit_count c \<ge> 3 then score + 15
                   else if visit_count c \<ge> 2 then score + 10
                   else score);
          score = (if member_elsewhere c = Some False then score + 15 else score);
          score = (if truthy (email c) \<and> truthy (phone c) then score + 5 else score);
          score = (if truthy (zip_code c) then score + 5 else score)
      in min score 100)"

text \<open>
  The point table as the specification words it: one entry per signal, the entries of
  the play-frequency band and of the visit-count band excluding one another.
\<close>

definition spec_frequency_points :: "string option \<Rightarrow> int" where
  "spec_frequency_points f =
     (if f = Some ''weekly'' then 25 else if f = Some ''monthly'' then 15
      else if f = Some ''rarely'' then 5 else 0)"

definition spec_visit_points :: "int \<Rightarrow> int" where
  "spec_visit_points v =
     (if v \<ge> 5 then 20 else if v = 3 \<or> v = 4 then 15 else if v = 2 then 10 else 0)"

definition spec_score :: "customer \<Rightarrow> int" where
  "spec_score c =
     min 100
       ((if is_local c = Some True then 30 else 0)
        + spec_frequency_points (play_frequency c)
        + spec_visit_points (visit_count c)
        + (if member_elsewhere c = Some False then 15 else 0)
        + (if truthy (email c) \<and> truthy (phone c) then 5 else 0)
        + (if truthy (zip_code c) then 5 else 0))"

section \<open>The database\<close>

text \<open>
  The tables of the schema that the modelled routes read or write, each a list of rows
  in insertion order. \<open>courses\<close> pairs a slug with the course's identifier.
\<close>

record capture_req =
  courseSlug :: "string option"
  locationId :: "nat option"
  firstName :: "string option"
  lastName :: "string option"
  req_email :: "string option"
  req_phone :: "string option"
  req_zip :: "string option"
  bookingSource :: "string option"
  isLocal :: "bool option"
  playFrequency :: "string option"
  memberElsewhere :: "bool option"
  firstTime :: "bool option"
  chosenReward :: "string option"
  req_ip :: "string option"
  req_user_agent :: "string option"

record capture =
  cap_id :: nat
  cap_course_id :: nat
  customer_id :: "nat option"
  location_id :: "nat option"
  form_data :: capture_req
  reward_code :: string
  reward_type :: "string option"
  reward_redeemed :: bool
  reward_redeemed_at :: "nat option"
  reward_redeemed_by :: "string option"
  ip_address :: "string option"
  user_agent :: "string option"
  cap_created_at :: nat

record pipeline_entry =
  pp_course_id :: nat
  pp_customer_id :: nat
  pp_status :: string

record ab_test_result =
  ab_capture_id :: nat
  ab_redeemed :: bool

type_synonym csv_row = "(string \<times> string) list"

record import_rec =
  imp_id :: nat
  imp_course_id :: nat
  imp_source :: string
  imp_filename :: string
  imp_file_size :: nat
  imp_status :: string
  imp_started_at :: "nat option"
  imp_completed_at :: "nat option"
  total_rows :: nat
  processed_rows :: nat
  new_customers :: nat
  matched_customers :: nat
  skipped_rows :: nat
  imp_errors :: "(nat \<times> string) list"

record import_row =
  ir_import_id :: nat
  ir_customer_id :: "nat option"
  row_number :: nat
  raw_data :: csv_row
  action :: string
  match_type :: "string option"
  error_message :: "string option"

record db =
  courses :: "(string \<times> nat) list"
  locations :: "nat list"
  customers :: "customer list"
  captures :: "capture list"
  prospect_pipeline :: "pipeline_entry list"
  ab_test_results :: "ab_test_result list"
  import_batches :: "import_rec list"
  import_rows :: "import_row list"

text \<open>
  What leaves a handler's \<open>try\<close> block early: the errors the handlers throw
  themselves, the constraint violations a statement can raise, and the early return
  \<open>already_claimed\<close>. Of the length limits of the \<open>VARCHAR\<close> columns only that of
  \<open>reward_redeemed_by\<close> is modelled (in the redeem routes); the loss of the connection
  is not modelled.
\<close>

datatype db_error =
    CourseNotFound
  | AlreadyClaimed
  | NoFileUploaded
  | UniqueViolation string
  | ForeignKeyViolation string
  | NotNullViolation string
  | InFailedSqlTransaction
  | TypeError string

definition error_message_of :: "db_error \<Rightarrow> string" where
  "error_message_of e =
     (case e of
        CourseNotFound \<Rightarrow> ''Course not found''
      | AlreadyClaimed \<Rightarrow> ''already_claimed''
      | NoFileUploaded \<Rightarrow> ''No file uploaded''
      | UniqueViolation k \<Rightarrow> ''duplicate key value violates unique constraint '' @ k
      | ForeignKeyViolation k \<Rightarrow> ''violates foreign key constraint '' @ k
      | NotNullViolation k \<Rightarrow> ''null value violates not-null constraint in column '' @ k
      | InFailedSqlTransaction \<Rightarrow>
          ''current transaction is aborted, commands ignored until end of transaction block''
      | TypeError m \<Rightarrow> m)"

text \<open>A fresh identifier, standing for \<open>uuid_generate_v4()\<close>.\<close>

definition fresh_id :: "nat list \<Rightarrow> nat" where
  "fresh_id ids = Suc (fold max ids 0)"

text \<open>\<open>SELECT id FROM courses WHERE slug = $1\<close>, first row.\<close>

definition select_course :: "db \<Rightarrow> string \<Rightarrow> nat option" where
  "select_course d slug = map_of (courses d) slug"

text \<open>\<open>SELECT id FROM customers WHERE course_id = $1 AND email = $2\<close>, first row.\<close>

definition select_by_email :: "customer list \<Rightarrow> nat \<Rightarrow> string \<Rightarrow> customer option" where
  "select_by_email cs courseId e = find (\<lambda>c. course_id c = courseId \<and> email c = Some e) cs"

definition select_by_phone :: "customer list \<Rightarrow> nat \<Rightarrow> string \<Rightarrow> customer option" where
  "select_by_phone cs courseId p = find (\<lambda>c. course_id c = courseId \<and> phone c = Some p) cs"

text \<open>\<open>SELECT * FROM customers WHERE id = $1\<close>, first row.\<close>

definition select_customer :: "customer list \<Rightarrow> nat \<Rightarrow> customer option" where
  "select_customer cs cid = find (\<lambda>c. cust_id c = cid) cs"

text \<open>
  The constraints \<open>unique_email_per_course\<close> and \<open>unique_phone_per_course\<close>: the name
  of the constraint that row \<open>r\<close> violates against the rows \<open>others\<close>, if any. A
  \<open>NULL\<close> key never clashes.
\<close>

definition email_clash :: "customer \<Rightarrow> customer \<Rightarrow> bool" where
  "email_clash r c = (course_id r = course_id c \<and> email r \<noteq> None \<and> email r = email c)"

definition phone_clash :: "customer \<Rightarrow> customer \<Rightarrow> bool" where
  "phone_clash r c = (course_id r = course_id c \<and> phone r \<noteq> None \<and> phone r = phone c)"

definition unique_violation :: "customer \<Rightarrow> customer list \<Rightarrow> string option" where
  "unique_violation r others =
     (if list_ex (email_clash r) others then Some ''unique_email_per_course''
      else if list_ex (phone_clash r) others then Some ''unique_phone_per_course''
      else None)"

definition insert_customer :: "customer \<Rightarrow> customer list \<Rightarrow> db_error + customer list" where
  "insert_customer r cs =
     (case unique_violation r cs of
        Some k \<Rightarrow> Inl (UniqueViolation k)
      | None \<Rightarrow> Inr (cs @ [r]))"

text \<open>\<open>UPDATE customers SET ... WHERE id = $1\<close>, with \<open>f\<close> the \<open>SET\<close> clause.\<close>

definition update_customer ::
  "nat \<Rightarrow> (customer \<Rightarrow> customer) \<Rightarrow> customer list \<Rightarrow> db_error + customer list" where
  "update_customer cid f cs =
     (case List.map_filter
             (\<lambda>c. if cust_id c = cid
                  then unique_violation (f c) (filter (\<lambda>other. cust_id other \<noteq> cid) cs)
                  else None) cs of
        k # _ \<Rightarrow> Inl (UniqueViolation k)
      | [] \<Rightarrow> Inr (map (\<lambda>c. if cust_id c = cid then f c else c) cs))"

definition coalesce :: "'a option \<Rightarrow> 'a option \<Rightarrow> 'a option" where
  "coalesce a b = (case a of Some v \<Rightarrow> Some v | None \<Rightarrow> b)"

section \<open>POST /api/capture\<close>

text \<open>
  The route exists twice: in \<open>src/backend/server.js\<close> (match on e-mail, then on phone;
  every submission is recorded) and in \<open>src/unnamed/part_000\<close> (match on e-mail only; a
  second submission of an e-mail is refused as \<open>already_claimed\<close>). The statements the
  two share are defined once. A failure inside the transaction is \<open>Inl\<close>: the handler
  rolls back, so the database is the one it started from.
\<close>

definition slug_or_default :: "string option \<Rightarrow> string" where
  "slug_or_default s = (if truthy s then the s else ''crescent-pointe'')"

definition normalizeEmail :: "string option \<Rightarrow> string option" where
  "normalizeEmail e = map_option (\<lambda>s. trim (toLowerCase s)) e"

text \<open>The row of \<open>INSERT INTO customers (...) VALUES (..., 1, NOW())\<close>.\<close>

definition capture_insert_row ::
  "nat \<Rightarrow> nat \<Rightarrow> capture_req \<Rightarrow> string option \<Rightarrow> string option \<Rightarrow> nat \<Rightarrow> customer" where
  "capture_insert_row cid courseId req normalizedEmail normalizedPhone now =
     \<lparr>cust_id = cid, course_id = courseId,
      first_name = firstName req, last_name = lastName req,
      email = normalizedEmail, phone = normalizedPhone, zip_code = req_zip req,
      booking_source = bookingSource req, is_local = isLocal req,
      play_frequency = playFrequency req, member_elsewhere = memberElsewhere req,
      first_time_visitor = firstTime req,
      visit_count = 1, last_visit_at = Some now,
      membership_score = 0, is_membership_prospect = False,
      source = ''capture'', source_id = None\<rparr>"

text \<open>The \<open>SET\<close> clause of \<open>UPDATE customers SET first_name = COALESCE($2, first_name), ...\<close>.\<close>

definition capture_update_set ::
  "capture_req \<Rightarrow> string option \<Rightarrow> string option \<Rightarrow> nat \<Rightarrow> customer \<Rightarrow> customer" where
  "capture_update_set req normalizedEmail normalizedPhone now c =
     c\<lparr>first_name := coalesce (firstName req) (first_name c),
       last_name := coalesce (lastName req) (last_name c),
       email := coalesce normalizedEmail (email c),
       phone := coalesce normalizedPhone (phone c),
       zip_code := coalesce (req_zip req) (zip_code c),
       booking_source := coalesce (bookingSource req) (booking_source c),
       is_local := coalesce (isLocal req) (is_local c),
       play_frequency := coalesce (playFrequency req) (play_frequency c),
       member_elsewhere := coalesce (memberElsewhere req) (member_elsewhere c),
       visit_count := visit_count c + 1,
       last_visit_at := Some now\<rparr>"

definition upsert_customer ::
  "customer list \<Rightarrow> nat \<Rightarrow> customer option \<Rightarrow> capture_req \<Rightarrow> string option \<Rightarrow> string option \<Rightarrow>
   nat \<Rightarrow> db_error + (nat \<times> customer list)" where
  "upsert_customer cs courseId existing req normalizedEmail normalizedPhone now =
     (case existing of
        None \<Rightarrow>
          (let cid = fresh_id (map cust_id cs) in
           case insert_customer
                  (capture_insert_row cid courseId req normalizedEmail normalizedPhone now) cs of
             Inl e \<Rightarrow> Inl e
           | Inr cs' \<Rightarrow> Inr (cid, cs'))
      | Some c \<Rightarrow>
          (case update_customer (cust_id c)
                  (capture_update_set req normalizedEmail normalizedPhone now) cs of
             Inl e \<Rightarrow> Inl e
           | Inr cs' \<Rightarrow> Inr (cust_id c, cs')))"

text \<open>
  \<open>SELECT * FROM customers WHERE id = $1\<close>, the score and the flag computed from the
  first row, and \<open>UPDATE customers SET membership_score = $1, is_membership_prospect = $2\<close>.
\<close>

definition score_set :: "int \<Rightarrow> bool \<Rightarrow> customer \<Rightarrow> customer" where
  "score_set score isProspect c =
     c\<lparr>membership_score := score, is_membership_prospect := isProspect\<rparr>"

definition update_score :: "nat \<Rightarrow> customer list \<Rightarrow> db_error + (bool \<times> customer list)" where
  "update_score customerId cs =
     (case select_customer cs customerId of
        None \<Rightarrow> Inl (TypeError ''Cannot read properties of undefined'')
      | Some row \<Rightarrow>
          (let score = calculateMembershipScore row;
               isProspect = (score \<ge> 60 \<and> is_local row = Some True)
           in Inr (isProspect,
                   map (\<lambda>c. if cust_id c = customerId then score_set score isProspect c else c)
                     cs)))"

definition capture_row ::
  "nat \<Rightarrow> nat \<Rightarrow> nat \<Rightarrow> capture_req \<Rightarrow> string \<Rightarrow> string option \<Rightarrow> nat \<Rightarrow> capture" where
  "capture_row capId courseId customerId req rewardCode rewardType now =
     \<lparr>cap_id = capId, cap_course_id = courseId, customer_id = Some customerId,
      location_id = locationId req, form_data = req,
      reward_code = rewardCode, reward_type = rewardType,
      reward_redeemed = False, reward_redeemed_at = None, reward_redeemed_by = None,
      ip_address = req_ip req, user_agent = req_user_agent req, cap_created_at = now\<rparr>"

definition insert_capture :: "db \<Rightarrow> capture \<Rightarrow> db_error + capture list" where
  "insert_capture d cap =
     (case location_id cap of
        None \<Rightarrow> Inr (captures d @ [cap])
      | Some l \<Rightarrow>
          if l \<in> set (locations d) then Inr (captures d @ [cap])
          else Inl (ForeignKeyViolation ''captures_location_id_fkey''))"

record capture_result =
  rewardCode :: string
  rewardDescription :: "string option"
  isNewCustomer :: bool
  customerId :: nat

subsection \<open>src/backend/server.js\<close>

definition match_server ::
  "customer list \<Rightarrow> nat \<Rightarrow> string option \<Rightarrow> string option \<Rightarrow> customer option" where
  "match_server cs courseId normalizedEmail normalizedPhone =
     (let byEmail = (if truthy normalizedEmail
                     then select_by_email cs courseId (the normalizedEmail) else None)
      in if byEmail = None \<and> truthy normalizedPhone
         then select_by_phone cs courseId (the normalizedPhone)
         else byEmail)"

definition capture_txn_server ::
  "db \<Rightarrow> nat \<Rightarrow> (nat \<Rightarrow> nat) \<Rightarrow> capture_req \<Rightarrow> db_error + (db \<times> capture_result)" where
  "capture_txn_server d now rnd req =
     (case select_course d (slug_or_default (courseSlug req)) of
        None \<Rightarrow> Inl CourseNotFound
      | Some courseId \<Rightarrow>
          (let normalizedPhone = normalizePhone (req_phone req);
               normalizedEmail = normalizeEmail (req_email req);
               existing = match_server (customers d) courseId normalizedEmail normalizedPhone
           in case upsert_customer (customers d) courseId existing req
                     normalizedEmail normalizedPhone now of
                Inl e \<Rightarrow> Inl e
              | Inr (cid, cs1) \<Rightarrow>
                  (case update_score cid cs1 of
                     Inl e \<Rightarrow> Inl e
                   | Inr (isProspect, cs2) \<Rightarrow>
                       (let code = generateRewardCode rnd in
                        case insert_capture d
                               (capture_row (fresh_id (map cap_id (captures d))) courseId cid req
                                  code (Some ''free_beer'') now) of
                          Inl e \<Rightarrow> Inl e
                        | Inr caps \<Rightarrow>
                            Inr (d\<lparr>customers := cs2, captures := caps\<rparr>,
                                 \<lparr>rewardCode = code, rewardDescription = None,
                                  isNewCustomer = (existing = None), customerId = cid\<rparr>)))))"

datatype capture_response =
    CaptureOk string bool nat
  | CaptureOkByEmail "string option" bool nat
  | Rejected400 string
  | Failed500 string

text \<open>
  The response of \<open>server.js\<close>: the reward code, \<open>isNewCustomer\<close> and \<open>customerId\<close>, or
  status 500 with the error's message.
\<close>

definition capture_server ::
  "db \<Rightarrow> nat \<Rightarrow> (nat \<Rightarrow> nat) \<Rightarrow> capture_req \<Rightarrow> db \<times> capture_response" where
  "capture_server d now rnd req =
     (case capture_txn_server d now rnd req of
        Inl e \<Rightarrow> (d, Failed500 (error_message_of e))
      | Inr (d', r) \<Rightarrow> (d', CaptureOk (rewardCode r) (isNewCustomer r) (customerId r)))"

subsection \<open>src/unnamed/part 000\<close>

text \<open>\<open>SELECT id, reward_code FROM captures WHERE customer_id = $1 LIMIT 1\<close> has a row.\<close>

definition claimed_by_customer :: "capture list \<Rightarrow> nat \<Rightarrow> bool" where
  "claimed_by_customer caps cid = list_ex (\<lambda>c. customer_id c = Some cid) caps"

text \<open>
  \<open>SELECT c.id FROM captures c JOIN customers cu ON c.customer_id = cu.id
  WHERE cu.course_id = $1 AND cu.email = $2 LIMIT 1\<close> has a row.
\<close>

definition claimed_by_email :: "db \<Rightarrow> nat \<Rightarrow> string \<Rightarrow> bool" where
  "claimed_by_email d courseId e =
     list_ex (\<lambda>c. list_ex (\<lambda>cu. customer_id c = Some (cust_id cu)
                              \<and> course_id cu = courseId \<and> email cu = Some e) (customers d))
       (captures d)"

text \<open>
  \<open>rewardMap[chosenReward] || rewardMap.free_beer\<close>, then \<open>.type\<close> and \<open>.description\<close>.
  A key that the object literal inherits from \<open>Object.prototype\<close> is found and has
  neither property.
\<close>

definition rewardMap :: "(string \<times> string \<times> string) list" where
  "rewardMap =
     [(''free_beer'', ''free_beer'', ''Free beer after your round''),
      (''free_soft_drink'', ''free_soft_drink'', ''Free soft drink or water''),
      (''pro_shop_5'', ''pro_shop_5'', ''$5 Pro Shop credit''),
      (''food_bev_5'', ''food_bev_5'', ''$5 Food & Bev credit'')]"

definition object_prototype_keys :: "string list" where
  "object_prototype_keys =
     [''constructor'', ''hasOwnProperty'', ''isPrototypeOf'', ''propertyIsEnumerable'',
      ''toLocaleString'', ''toString'', ''valueOf'', ''__proto__'', ''__defineGetter__'',
      ''__defineSetter__'', ''__lookupGetter__'', ''__lookupSetter__'']"

definition resolve_reward :: "string option \<Rightarrow> string option \<times> string option" where
  "resolve_reward chosen =
     (let free_beer = (Some ''free_beer'', Some ''Free beer after your round'') in
      case chosen of
        None \<Rightarrow> free_beer
      | Some k \<Rightarrow>
          (case map_of rewardMap k of
             Some (t, descr) \<Rightarrow> (Some t, Some descr)
           | None \<Rightarrow> if k \<in> set object_prototype_keys then (None, None) else free_beer))"

text \<open>
  \<open>INSERT INTO prospect_pipeline (course_id, customer_id, status) VALUES ($1, $2, 'new')
  ON CONFLICT (customer_id) DO NOTHING\<close>.
\<close>

definition pipeline_enroll :: "pipeline_entry list \<Rightarrow> nat \<Rightarrow> nat \<Rightarrow> pipeline_entry list" where
  "pipeline_enroll pl courseId cid =
     (if list_ex (\<lambda>p. pp_customer_id p = cid) pl then pl
      else pl @ [\<lparr>pp_course_id = courseId, pp_customer_id = cid, pp_status = ''new''\<rparr>])"

definition capture_txn_part000 ::
  "db \<Rightarrow> nat \<Rightarrow> (nat \<Rightarrow> nat) \<Rightarrow> capture_req \<Rightarrow> db_error + (db \<times> capture_result)" where
  "capture_txn_part000 d now rnd req =
     (case select_course d (slug_or_default (courseSlug req)) of
        None \<Rightarrow> Inl CourseNotFound
      | Some courseId \<Rightarrow>
          (let normalizedPhone = normalizePhone (req_phone req);
               normalizedEmail = normalizeEmail (req_email req);
               existing = (if truthy normalizedEmail
                           then select_by_email (customers d) courseId (the normalizedEmail)
                           else None)
           in if existing \<noteq> None \<and> claimed_by_customer (captures d) (cust_id (the existing))
              then Inl AlreadyClaimed
              else if truthy normalizedEmail \<and> claimed_by_email d courseId (the normalizedEmail)
              then Inl AlreadyClaimed
              else
                case upsert_customer (customers d) courseId existing req
                       normalizedEmail normalizedPhone now of
                  Inl e \<Rightarrow> Inl e
                | Inr (cid, cs1) \<Rightarrow>
                    (case update_score cid cs1 of
                       Inl e \<Rightarrow> Inl e
                     | Inr (isProspect, cs2) \<Rightarrow>
                         (let code = generateRewardCode rnd;
                              (rewardType, descr) = resolve_reward (chosenReward req)
                          in case insert_capture d
                                    (capture_row (fresh_id (map cap_id (captures d))) courseId cid
                                       req code rewardType now) of
                               Inl e \<Rightarrow> Inl e
                             | Inr caps \<Rightarrow>
                                 Inr (d\<lparr>customers := cs2, captures := caps,
                                        prospect_pipeline :=
                                          (if isProspect
                                           then pipeline_enroll (prospect_pipeline d) courseId cid
                                           else prospect_pipeline d)\<rparr>,
                                      \<lparr>rewardCode = code, rewardDescription = descr,
                                       isNewCustomer = (existing = None), customerId = cid\<rparr>)))))"

text \<open>
  The response of \<open>part_000\<close>. \<open>already_claimed\<close> is status 400; any other failure in
  the transaction is status 500. After the commit the handler sends and queues e-mails
  (not modelled: they touch neither \<open>customers\<close> nor \<open>captures\<close>) and builds the
  response from \<open>normalizedEmail.replace(...)\<close>, which throws when no e-mail was
  submitted: the response is then status 500 although the transaction is committed.
  The masked e-mail, the emoji and \<open>emailSent\<close> are left out of the response.
\<close>

definition capture_part000 ::
  "db \<Rightarrow> nat \<Rightarrow> (nat \<Rightarrow> nat) \<Rightarrow> capture_req \<Rightarrow> db \<times> capture_response" where
  "capture_part000 d now rnd req =
     (case capture_txn_part000 d now rnd req of
        Inl e \<Rightarrow>
          (d, if e = AlreadyClaimed then Rejected400 (error_message_of e)
              else Failed500 (error_message_of e))
      | Inr (d', r) \<Rightarrow>
          (d', if normalizeEmail (req_email req) = None
               then Failed500 ''Cannot read properties of undefined''
               else CaptureOkByEmail (rewardDescription r) (isNewCustomer r) (customerId r)))"

section \<open>Reward routes\<close>

text \<open>
  \<open>UPDATE captures SET reward_redeemed = true, reward_redeemed_at = NOW(),
  reward_redeemed_by = $2 WHERE reward_code = $1 AND reward_redeemed = false RETURNING *\<close>:
  the table after the statement and the rows it returns.
\<close>

definition redeem_where :: "string \<Rightarrow> capture \<Rightarrow> bool" where
  "redeem_where code c = (reward_code c = code \<and> reward_redeemed c = False)"

definition redeem_set :: "string option \<Rightarrow> nat \<Rightarrow> capture \<Rightarrow> capture" where
  "redeem_set redeemedBy now c =
     c\<lparr>reward_redeemed := True, reward_redeemed_at := Some now,
       reward_redeemed_by := redeemedBy\<rparr>"

definition redeem_update ::
  "capture list \<Rightarrow> string \<Rightarrow> string option \<Rightarrow> nat \<Rightarrow> capture list \<times> capture list" where
  "redeem_update caps code redeemedBy now =
     (map (\<lambda>c. if redeem_where code c then redeem_set redeemedBy now c else c) caps,
      map (redeem_set redeemedBy now) (filter (redeem_where code) caps))"

text \<open>
  The value \<open>$2\<close> is assigned to \<open>reward_redeemed_by VARCHAR(100)\<close>. Assigning a
  string to a \<open>VARCHAR(n)\<close> column keeps it when it has at most \<open>n\<close> characters, cuts it
  to \<open>n\<close> characters when all the characters beyond are spaces, and is an error
  (\<open>value too long\<close>, \<open>None\<close> here) otherwise. The coercion of the parameter is evaluated
  when the statement is planned, so a longer name is refused whether or not a row
  matches.
\<close>

definition varchar_assign :: "nat \<Rightarrow> string option \<Rightarrow> string option option" where
  "varchar_assign n v =
     (case v of
        None \<Rightarrow> Some None
      | Some s \<Rightarrow>
          if length s \<le> n then Some (Some s)
          else if list_all (\<lambda>c. c = CHR '' '') (drop n s) then Some (Some (take n s))
          else None)"


text \<open>The message of PostgreSQL for a name that does not fit the column.\<close>

definition too_long :: string where
  "too_long = ''value too long for type character varying(100)''"

datatype redeem_response =
    Redeemed capture
  | NotFoundOrRedeemed
  | RedeemFailed string

text \<open>
  \<open>POST /api/rewards/:code/redeem\<close> of \<open>src/backend/server.js\<close>: status 404 when the
  statement returns no row, status 500 with the error's message when it throws.
\<close>

definition redeem_server :: "db \<Rightarrow> nat \<Rightarrow> string \<Rightarrow> string option \<Rightarrow> db \<times> redeem_response" where
  "redeem_server d now code redeemedBy =
     (case varchar_assign 100 redeemedBy of
        None \<Rightarrow> (d, RedeemFailed too_long)
      | Some staff \<Rightarrow>
          (case redeem_update (captures d) (toUpperCase code) staff now of
             (caps, []) \<Rightarrow> (d\<lparr>captures := caps\<rparr>, NotFoundOrRedeemed)
           | (caps, r # _) \<Rightarrow> (d\<lparr>captures := caps\<rparr>, Redeemed r)))"

text \<open>
  The same route of \<open>src/unnamed/part_000\<close>, which goes on to
  \<open>UPDATE ab_test_results SET redeemed = true WHERE capture_id = $1\<close> for the first
  returned row. The two statements run on the pool, outside any transaction: the
  first is committed when the second runs. The second has no constraint to violate.
\<close>

definition redeem_part000 :: "db \<Rightarrow> nat \<Rightarrow> string \<Rightarrow> string option \<Rightarrow> db \<times> redeem_response" where
  "redeem_part000 d now code redeemedBy =
     (case varchar_assign 100 redeemedBy of
        None \<Rightarrow> (d, RedeemFailed too_long)
      | Some staff \<Rightarrow>
          (case redeem_update (captures d) (toUpperCase code) staff now of
             (caps, []) \<Rightarrow> (d\<lparr>captures := caps\<rparr>, NotFoundOrRedeemed)
           | (caps, r # _) \<Rightarrow>
               (d\<lparr>captures := caps,
                  ab_test_results :=
                    map (\<lambda>a. if ab_capture_id a = cap_id r then a\<lparr>ab_redeemed := True\<rparr>
                             else a)
                      (ab_test_results d)\<rparr>,
                Redeemed r)))"

text \<open>
  \<open>GET /api/rewards/:code\<close>: the first capture with the code, joined with its
  customer's names; \<open>None\<close> is the response 404.
\<close>

definition get_reward :: "db \<Rightarrow> string \<Rightarrow> (capture \<times> string option \<times> string option) option" where
  "get_reward d code =
     (case filter (\<lambda>cap. reward_code cap = toUpperCase code) (captures d) of
        [] \<Rightarrow> None
      | cap # _ \<Rightarrow>
          (case (case customer_id cap of
                   None \<Rightarrow> None
                 | Some cid \<Rightarrow> select_customer (customers d) cid) of
             None \<Rightarrow> Some (cap, None, None)
           | Some c \<Rightarrow> Some (cap, first_name c, last_name c)))"

text \<open>A capture with the code exists and is unredeemed.\<close>

definition unredeemed :: "capture list \<Rightarrow> string \<Rightarrow> bool" where
  "unredeemed caps code = list_ex (redeem_where code) caps"



section \<open>GET /api/prospects\<close>

text \<open>
  The customers of the course with \<open>is_local = true\<close> and \<open>membership_score >= 50\<close>,
  ordered by score and then by visit count, both descending, the first \<open>limit\<close> of
  them, each with the number of its captures. The order among equal keys, which the
  statement leaves open, is the table's.
\<close>

definition in_course :: "db \<Rightarrow> string \<Rightarrow> customer \<Rightarrow> bool" where
  "in_course d slug c = list_ex (\<lambda>(s, i). i = course_id c \<and> s = slug) (courses d)"

definition prospect_rows :: "db \<Rightarrow> string \<Rightarrow> customer list" where
  "prospect_rows d slug =
     filter (\<lambda>c. in_course d slug c \<and> is_local c = Some True \<and> membership_score c \<ge> 50)
       (customers d)"

definition get_prospects :: "db \<Rightarrow> string option \<Rightarrow> nat option \<Rightarrow> (customer \<times> nat) list" where
  "get_prospects d slugParam limit =
     (let slug = (case slugParam of None \<Rightarrow> ''crescent-pointe'' | Some s \<Rightarrow> s);
          n = (case limit of None \<Rightarrow> 20 | Some l \<Rightarrow> l);
          ordered = sort_key (\<lambda>c. - membership_score c)
                      (sort_key (\<lambda>c. - visit_count c) (prospect_rows d slug))
      in map (\<lambda>c. (c, length (filter (\<lambda>cap. customer_id cap = Some (cust_id c)) (captures d))))
           (take n ordered))"

section \<open>POST /api/import\<close>

text \<open>
  A parsed CSV record is an association list from column names to values; \<open>row[k]\<close>
  is \<open>undefined\<close> for a column the file does not have. \<open>a || b\<close> on such values is
  \<open>js_or\<close>.
\<close>

definition col :: "csv_row \<Rightarrow> string \<Rightarrow> string option" where
  "col row k = map_of row k"

definition js_or :: "string option \<Rightarrow> string option \<Rightarrow> string option" where
  "js_or a b = (if truthy a then a else b)"

record mapped_data =
  m_firstName :: "string option"
  m_lastName :: "string option"
  m_email :: "string option"
  m_phone :: "string option"
  m_zip :: "string option"

definition map_fields :: "string \<Rightarrow> csv_row \<Rightarrow> mapped_data" where
  "map_fields src row =
     (if src = ''golfnow'' then
        \<lparr>m_firstName = js_or (js_or (col row ''First Name'') (col row ''first_name'')) (col row ''FirstName''),
         m_lastName = js_or (js_or (col row ''Last Name'') (col row ''last_name'')) (col row ''LastName''),
         m_email = js_or (js_or (col row ''Email'') (col row ''email'')) (col row ''E-mail''),
         m_phone = js_or (js_or (col row ''Phone'') (col row ''phone'')) (col row ''Phone Number''),
         m_zip = js_or (js_or (col row ''Zip'') (col row ''zip'')) (col row ''Postal Code'')\<rparr>
      else if src = ''clubessential'' then
        \<lparr>m_firstName = js_or (js_or (col row ''FirstName'') (col row ''First Name'')) (col row ''first_name''),
         m_lastName = js_or (js_or (col row ''LastName'') (col row ''Last Name'')) (col row ''last_name''),
         m_email = js_or (js_or (col row ''Email'') (col row ''email'')) (col row ''EmailAddress''),
         m_phone = js_or (js_or (js_or (col row ''Phone'') (col row ''phone'')) (col row ''MobilePhone''))
                     (col row ''HomePhone''),
         m_zip = js_or (js_or (col row ''Zip'') (col row ''zip'')) (col row ''PostalCode'')\<rparr>
      else
        \<lparr>m_firstName = js_or (js_or (col row ''first_name'') (col row ''firstName'')) (col row ''First Name''),
         m_lastName = js_or (js_or (col row ''last_name'') (col row ''lastName'')) (col row ''Last Name''),
         m_email = js_or (col row ''email'') (col row ''Email''),
         m_phone = js_or (col row ''phone'') (col row ''Phone''),
         m_zip = js_or (col row ''zip'') (col row ''Zip'')\<rparr>)"

text \<open>
  The handler's connection and local variables while the rows are processed. All
  statements run in one transaction (\<open>BEGIN\<close> ... \<open>COMMIT\<close>) without savepoints. Once a
  statement of a PostgreSQL transaction has failed, the transaction is in the failed
  state: every later statement on the connection is refused with
  \<open>InFailedSqlTransaction\<close> until the transaction is rolled back. \<open>st_failed\<close> records
  that state and \<open>query\<close> is \<open>client.query\<close>.
\<close>

record import_state =
  st_db :: db
  st_failed :: bool
  newCustomers :: nat
  matchedCustomers :: nat
  skippedRows :: nat
  errors :: "(nat \<times> string) list"

type_synonym 'a statement = "db \<Rightarrow> db_error + (db \<times> 'a)"

type_synonym 'a action = "import_state \<Rightarrow> import_state \<times> (db_error + 'a)"

definition query :: "'a statement \<Rightarrow> 'a action" where
  "query stmt st =
     (if st_failed st then (st, Inl InFailedSqlTransaction)
      else case stmt (st_db st) of
             Inl e \<Rightarrow> (st\<lparr>st_failed := True\<rparr>, Inl e)
           | Inr (d, x) \<Rightarrow> (st\<lparr>st_db := d\<rparr>, Inr x))"

definition done_with :: "'a \<Rightarrow> 'a action" where
  "done_with x st = (st, Inr x)"

text \<open>Sequencing: an exception of the first action skips the rest.\<close>

definition and_then :: "'a action \<Rightarrow> ('a \<Rightarrow> 'b action) \<Rightarrow> 'b action" where
  "and_then m f st = (case m st of (st1, Inl e) \<Rightarrow> (st1, Inl e) | (st1, Inr x) \<Rightarrow> f x st1)"

definition stmt_select_by_email :: "nat \<Rightarrow> string \<Rightarrow> customer option statement" where
  "stmt_select_by_email courseId e d = Inr (d, select_by_email (customers d) courseId e)"

definition stmt_select_by_phone :: "nat \<Rightarrow> string \<Rightarrow> customer option statement" where
  "stmt_select_by_phone courseId p d = Inr (d, select_by_phone (customers d) courseId p)"

text \<open>The \<open>SET\<close> clause of \<open>UPDATE customers SET first_name = COALESCE(first_name, $2), ...\<close>.\<close>

definition import_update_set ::
  "mapped_data \<Rightarrow> string option \<Rightarrow> string option \<Rightarrow> customer \<Rightarrow> customer" where
  "import_update_set m normalizedEmail normalizedPhone c =
     c\<lparr>first_name := coalesce (first_name c) (m_firstName m),
       last_name := coalesce (last_name c) (m_lastName m),
       email := coalesce (email c) normalizedEmail,
       phone := coalesce (phone c) normalizedPhone,
       zip_code := coalesce (zip_code c) (m_zip m)\<rparr>"

definition stmt_update_matched ::
  "nat \<Rightarrow> mapped_data \<Rightarrow> string option \<Rightarrow> string option \<Rightarrow> unit statement" where
  "stmt_update_matched cid m normalizedEmail normalizedPhone d =
     (case update_customer cid (import_update_set m normalizedEmail normalizedPhone)
             (customers d) of
        Inl e \<Rightarrow> Inl e
      | Inr cs \<Rightarrow> Inr (d\<lparr>customers := cs\<rparr>, ()))"

text \<open>
  \<open>INSERT INTO customers (course_id, first_name, last_name, email, phone, zip, source,
  source_id)\<close>; the other columns take their defaults.
\<close>

definition import_insert_row ::
  "nat \<Rightarrow> nat \<Rightarrow> string \<Rightarrow> mapped_data \<Rightarrow> string option \<Rightarrow> string option \<Rightarrow> csv_row \<Rightarrow> customer"
  where
  "import_insert_row cid courseId src m normalizedEmail normalizedPhone row =
     \<lparr>cust_id = cid, course_id = courseId,
      first_name = m_firstName m, last_name = m_lastName m,
      email = normalizedEmail, phone = normalizedPhone, zip_code = m_zip m,
      booking_source = None, is_local = None, play_frequency = None,
      member_elsewhere = None, first_time_visitor = None,
      visit_count = 0, last_visit_at = None,
      membership_score = 0, is_membership_prospect = False,
      source = src @ ''_import'',
      source_id = (let v = js_or (col row ''id'') (col row ''ID'')
                   in if truthy v then v else None)\<rparr>"

definition stmt_insert_created ::
  "nat \<Rightarrow> string \<Rightarrow> mapped_data \<Rightarrow> string option \<Rightarrow> string option \<Rightarrow> csv_row \<Rightarrow> nat statement"
  where
  "stmt_insert_created courseId src m normalizedEmail normalizedPhone row d =
     (let cid = fresh_id (map cust_id (customers d)) in
      case insert_customer
             (import_insert_row cid courseId src m normalizedEmail normalizedPhone row)
             (customers d) of
        Inl e \<Rightarrow> Inl e
      | Inr cs \<Rightarrow> Inr (d\<lparr>customers := cs\<rparr>, cid))"

definition stmt_insert_import_row :: "import_row \<Rightarrow> unit statement" where
  "stmt_insert_import_row r d = Inr (d\<lparr>import_rows := import_rows d @ [r]\<rparr>, ())"

text \<open>The body of the \<open>try\<close> block for the record at index \<open>i\<close>.\<close>

definition import_row_try :: "nat \<Rightarrow> nat \<Rightarrow> string \<Rightarrow> nat \<Rightarrow> csv_row \<Rightarrow> unit action" where
  "import_row_try importId courseId src i row =
     (let mappedData = map_fields src row;
          normalizedEmail = normalizeEmail (m_email mappedData);
          normalizedPhone = normalizePhone (m_phone mappedData)
      in if \<not> truthy normalizedEmail \<and> \<not> truthy normalizedPhone then
           (\<lambda>st. query (stmt_insert_import_row
                          \<lparr>ir_import_id = importId, ir_customer_id = None, row_number = i + 1,
                           raw_data = row, action = ''skipped'', match_type = None,
                           error_message = Some ''No email or phone''\<rparr>)
                   (st\<lparr>skippedRows := skippedRows st + 1\<rparr>))
         else
           and_then
             (if truthy normalizedEmail
              then query (stmt_select_by_email courseId (the normalizedEmail))
              else done_with None)
             (\<lambda>emailMatch.
           and_then
             (if emailMatch = None \<and> truthy normalizedPhone
              then query (stmt_select_by_phone courseId (the normalizedPhone))
              else done_with None)
             (\<lambda>phoneMatch.
           and_then
             (case (case emailMatch of Some c \<Rightarrow> Some c | None \<Rightarrow> phoneMatch) of
                Some existingCustomer \<Rightarrow>
                  and_then
                    (query (stmt_update_matched (cust_id existingCustomer) mappedData
                              normalizedEmail normalizedPhone))
                    (\<lambda>_ st. (st\<lparr>matchedCustomers := matchedCustomers st + 1\<rparr>,
                              Inr (cust_id existingCustomer, ''matched'')))
              | None \<Rightarrow>
                  and_then
                    (query (stmt_insert_created courseId src mappedData
                              normalizedEmail normalizedPhone row))
                    (\<lambda>cid st. (st\<lparr>newCustomers := newCustomers st + 1\<rparr>,
                                Inr (cid, ''created''))))
             (\<lambda>(cid, act).
                query (stmt_insert_import_row
                         \<lparr>ir_import_id = importId, ir_customer_id = Some cid,
                          row_number = i + 1, raw_data = row, action = act,
                          match_type = (if emailMatch \<noteq> None then Some ''email''
                                        else if phoneMatch \<noteq> None then Some ''phone''
                                        else None),
                          error_message = None\<rparr>)))))"

text \<open>
  The loop over the records, from index \<open>i\<close>. The \<open>catch\<close> block pushes the error and
  inserts the audit row with action \<open>error\<close> through the same connection; an exception
  of that statement is thrown from the \<open>catch\<close> block and leaves the loop.
\<close>

fun import_loop :: "nat \<Rightarrow> nat \<Rightarrow> string \<Rightarrow> nat \<Rightarrow> csv_row list \<Rightarrow> unit action" where
  "import_loop importId courseId src i [] st = (st, Inr ())"
| "import_loop importId courseId src i (row # rest) st =
     (case import_row_try importId courseId src i row st of
        (st1, Inr _) \<Rightarrow> import_loop importId courseId src (i + 1) rest st1
      | (st1, Inl rowError) \<Rightarrow>
          (case query (stmt_insert_import_row
                         \<lparr>ir_import_id = importId, ir_customer_id = None, row_number = i + 1,
                          raw_data = row, action = ''error'', match_type = None,
                          error_message = Some (error_message_of rowError)\<rparr>)
                  (st1\<lparr>errors := errors st1 @ [(i + 1, error_message_of rowError)]\<rparr>) of
             (st2, Inl e) \<Rightarrow> (st2, Inl e)
           | (st2, Inr _) \<Rightarrow> import_loop importId courseId src (i + 1) rest st2))"

record upload =
  originalname :: string
  file_size :: nat
  records :: "csv_row list"

definition stmt_insert_import :: "nat \<Rightarrow> string option \<Rightarrow> upload \<Rightarrow> nat \<Rightarrow> nat statement" where
  "stmt_insert_import courseId src file now d =
     (case src of
        None \<Rightarrow> Inl (NotNullViolation ''source'')
      | Some s \<Rightarrow>
          (let importId = fresh_id (map imp_id (import_batches d)) in
           Inr (d\<lparr>import_batches := import_batches d @
                   [\<lparr>imp_id = importId, imp_course_id = courseId, imp_source = s,
                     imp_filename = originalname file, imp_file_size = file_size file,
                     imp_status = ''processing'', imp_started_at = Some now,
                     imp_completed_at = None, total_rows = 0, processed_rows = 0,
                     new_customers = 0, matched_customers = 0, skipped_rows = 0,
                     imp_errors = []\<rparr>]\<rparr>,
                importId)))"

definition stmt_complete_import ::
  "nat \<Rightarrow> nat \<Rightarrow> nat \<Rightarrow> nat \<Rightarrow> nat \<Rightarrow> (nat \<times> string) list \<Rightarrow> nat \<Rightarrow> unit statement" where
  "stmt_complete_import importId n_rows created matched skipped errs now d =
     Inr (d\<lparr>import_batches :=
              map (\<lambda>b. if imp_id b = importId
                       then b\<lparr>imp_status := ''completed'', imp_completed_at := Some now,
                              total_rows := n_rows, processed_rows := created + matched,
                              new_customers := created, matched_customers := matched,
                              skipped_rows := skipped, imp_errors := errs\<rparr>
                       else b)
                (import_batches d)\<rparr>, ())"

record import_stats =
  importId :: nat
  totalRows :: nat
  stat_newCustomers :: nat
  stat_matchedCustomers :: nat
  stat_skippedRows :: nat
  stat_errors :: nat

datatype import_response =
    ImportOk import_stats
  | ImportFailed string

text \<open>
  The handler: everything between \<open>BEGIN\<close> and \<open>COMMIT\<close> as one action on the state
  that starts from the database; an exception that reaches the outer \<open>catch\<close> rolls
  back, so the database is the one the handler started from.
\<close>

definition import_txn ::
  "nat \<Rightarrow> string option \<Rightarrow> string option \<Rightarrow> upload option \<Rightarrow> import_stats action" where
  "import_txn now slugParam src file =
     (case file of
        None \<Rightarrow> (\<lambda>st. (st, Inl NoFileUploaded))
      | Some f \<Rightarrow>
          and_then
            (query (\<lambda>d. case select_course d
                               (case slugParam of None \<Rightarrow> ''crescent-pointe'' | Some s \<Rightarrow> s) of
                          None \<Rightarrow> Inl CourseNotFound
                        | Some courseId \<Rightarrow> Inr (d, courseId)))
            (\<lambda>courseId.
          and_then (query (stmt_insert_import courseId src f now))
            (\<lambda>impId.
          and_then (import_loop impId courseId (the src) 0 (records f))
            (\<lambda>_ st.
          and_then
            (query (stmt_complete_import impId (length (records f)) (newCustomers st)
                      (matchedCustomers st) (skippedRows st) (errors st) now))
            (\<lambda>_. done_with
                    \<lparr>importId = impId, totalRows = length (records f),
                     stat_newCustomers = newCustomers st,
                     stat_matchedCustomers = matchedCustomers st,
                     stat_skippedRows = skippedRows st,
                     stat_errors = length (errors st)\<rparr>)
            st))))"

definition post_import ::
  "db \<Rightarrow> nat \<Rightarrow> string option \<Rightarrow> string option \<Rightarrow> upload option \<Rightarrow> db \<times> import_response" where
  "post_import d now slugParam src file =
     (case import_txn now slugParam src file
             \<lparr>st_db = d, st_failed = False, newCustomers = 0, matchedCustomers = 0,
              skippedRows = 0, errors = []\<rparr> of
        (st, Inl e) \<Rightarrow> (d, ImportFailed (error_message_of e))
      | (st, Inr stats) \<Rightarrow> (st_db st, ImportOk stats))"

section \<open>Sequences of requests\<close>

text \<open>
  The requests that write to the tables of customers and captures, and the state
  after a sequence of them served one after the other, by the routes of \<open>server.js\<close>
  and by those of \<open>part_000\<close>. In both files the only statements on \<open>captures\<close> are
  the \<open>INSERT\<close> of the capture route and the \<open>UPDATE\<close> of the redeem route.
\<close>

datatype request =
    Capture nat "nat \<Rightarrow> nat" capture_req
  | Redeem nat string "string option"
  | Import nat "string option" "string option" "upload option"

definition step_server :: "request \<Rightarrow> db \<Rightarrow> db" where
  "step_server r d =
     (case r of
        Capture now rnd req \<Rightarrow> fst (capture_server d now rnd req)
      | Redeem now code redeemedBy \<Rightarrow> fst (redeem_server d now code redeemedBy)
      | Import now slugParam src file \<Rightarrow> fst (post_import d now slugParam src file))"


definition run_server :: "request list \<Rightarrow> db \<Rightarrow> db" where
  "run_server rs d = fold step_server rs d"




section \<open>Concrete states and inputs\<close>

text \<open>A database with the one course and no rows, and a filled-in form.\<close>

definition db0 :: db where
  "db0 = \<lparr>courses = [(''crescent-pointe'', 1)], locations = [], customers = [], captures = [],
          prospect_pipeline = [], ab_test_results = [], import_batches = [],
          import_rows = []\<rparr>"

definition req_ann :: capture_req where
  "req_ann =
     \<lparr>courseSlug = None, locationId = None, firstName = Some ''Ann'', lastName = Some ''Lee'',
      req_email = Some '' Ann@X.com '', req_phone = Some ''(843) 555-1234'',
      req_zip = Some ''29579'', bookingSource = Some ''website'', isLocal = Some True,
      playFrequency = Some ''weekly'', memberElsewhere = Some False, firstTime = Some True,
      chosenReward = None, req_ip = None, req_user_agent = None\<rparr>"

text \<open>A customer with every signal of the point table at its maximum.\<close>

definition cust_max :: customer where
  "cust_max =
     \<lparr>cust_id = 1, course_id = 1, first_name = Some ''Ann'', last_name = Some ''Lee'',
      email = Some ''ann@x.com'', phone = Some ''8435551234'', zip_code = Some ''29579'',
      booking_source = Some ''website'', is_local = Some True,
      play_frequency = Some ''weekly'', member_elsewhere = Some False,
      first_time_visitor = Some False, visit_count = 5, last_visit_at = Some 7,
      membership_score = 0, is_membership_prospect = False, source = ''capture'',
      source_id = None\<rparr>"

text \<open>A database holding one unredeemed capture with the code \<open>CPABCDEF\<close>.\<close>

definition cap_one :: capture where
  "cap_one =
     \<lparr>cap_id = 1, cap_course_id = 1, customer_id = Some 1, location_id = None,
      form_data = req_ann, reward_code = ''CPABCDEF'', reward_type = Some ''free_beer'',
      reward_redeemed = False, reward_redeemed_at = None, reward_redeemed_by = None,
      ip_address = None, user_agent = None, cap_created_at = 7\<rparr>"

definition db_one :: db where
  "db_one = db0\<lparr>customers := [cust_max], captures := [cap_one]\<rparr>"

text \<open>The database after the form of \<open>req_ann\<close> was submitted to \<open>server.js\<close> at time 7.\<close>

definition db_ann :: db where
  "db_ann = fst (capture_server db0 7 (\<lambda>i. i) req_ann)"

definition res_ann :: capture_result where
  "res_ann = \<lparr>rewardCode = ''CPABCDEF'', rewardDescription = None, isNewCustomer = True,
              customerId = 1\<rparr>"

text \<open>
  The same form with another first name, and a database whose one customer has no
  capture yet (as after an import).
\<close>

definition req_bob :: capture_req where
  "req_bob = req_ann\<lparr>firstName := Some ''Bob''\<rparr>"

definition db_imported :: db where
  "db_imported = db0\<lparr>customers := [cust_max]\<rparr>"

text \<open>
  Three more forms: a visitor from elsewhere who plays weekly, and two local golfers
  who play rarely and monthly.
\<close>

definition req_vic :: capture_req where
  "req_vic =
     \<lparr>courseSlug = None, locationId = None, firstName = Some ''Vic'', lastName = Some ''Ray'',
      req_email = Some ''vic@y.com'', req_phone = Some ''(910) 555-0000'',
      req_zip = Some ''28401'', bookingSource = Some ''golfnow'', isLocal = Some False,
      playFrequency = Some ''weekly'', memberElsewhere = Some False, firstTime = Some True,
      chosenReward = None, req_ip = None, req_user_agent = None\<rparr>"

definition req_cat :: capture_req where
  "req_cat =
     \<lparr>courseSlug = None, locationId = None, firstName = Some ''Cat'', lastName = Some ''Poe'',
      req_email = Some ''cat@z.com'', req_phone = Some ''(843) 555-0002'',
      req_zip = Some ''29579'', bookingSource = Some ''website'', isLocal = Some True,
      playFrequency = Some ''rarely'', memberElsewhere = Some False, firstTime = Some True,
      chosenReward = None, req_ip = None, req_user_agent = None\<rparr>"

definition req_dan :: capture_req where
  "req_dan =
     \<lparr>courseSlug = None, locationId = None, firstName = Some ''Dan'', lastName = Some ''Fox'',
      req_email = Some ''dan@w.com'', req_phone = Some ''(843) 555-0003'',
      req_zip = Some ''29579'', bookingSource = Some ''website'', isLocal = Some True,
      playFrequency = Some ''monthly'', memberElsewhere = Some False, firstTime = Some True,
      chosenReward = None, req_ip = None, req_user_agent = None\<rparr>"

text \<open>
  The database after the forms of \<open>req_ann\<close> and \<open>req_vic\<close> were submitted to
  \<open>server.js\<close>; and the one after those of \<open>req_dan\<close>, \<open>req_ann\<close> and \<open>req_cat\<close>, the
  last one twice.
\<close>

definition db_two :: db where
  "db_two = run_server [Capture 7 (\<lambda>i. i) req_ann, Capture 8 (\<lambda>i. i + 1) req_vic] db0"

definition db_three :: db where
  "db_three =
     run_server [Capture 7 (\<lambda>i. i) req_dan, Capture 8 (\<lambda>i. i + 1) req_ann,
                 Capture 9 (\<lambda>i. i + 2) req_cat, Capture 10 (\<lambda>i. i + 3) req_cat] db0"

text \<open>The rows of \<open>customers\<close> in these two databases.\<close>

definition row_ann :: customer where
  "row_ann =
     \<lparr>cust_id = 2, course_id = 1, first_name = Some ''Ann'', last_name = Some ''Lee'',
      email = Some ''ann@x.com'', phone = Some ''8435551234'', zip_code = Some ''29579'',
      booking_source = Some ''website'', is_local = Some True,
      play_frequency = Some ''weekly'', member_elsewhere = Some False,
      first_time_visitor = Some True, visit_count = 1, last_visit_at = Some 8,
      membership_score = 80, is_membership_prospect = True, source = ''capture'',
      source_id = None\<rparr>"

definition row_dan :: customer where
  "row_dan =
     \<lparr>cust_id = 1, course_id = 1, first_name = Some ''Dan'', last_name = Some ''Fox'',
      email = Some ''dan@w.com'', phone = Some ''8435550003'', zip_code = Some ''29579'',
      booking_source = Some ''website'', is_local = Some True,
      play_frequency = Some ''monthly'', member_elsewhere = Some False,
      first_time_visitor = Some True, visit_count = 1, last_visit_at = Some 7,
      membership_score = 70, is_membership_prospect = True, source = ''capture'',
      source_id = None\<rparr>"

definition row_cat :: customer where
  "row_cat =
     \<lparr>cust_id = 3, course_id = 1, first_name = Some ''Cat'', last_name = Some ''Poe'',
      email = Some ''cat@z.com'', phone = Some ''8435550002'', zip_code = Some ''29579'',
      booking_source = Some ''website'', is_local = Some True,
      play_frequency = Some ''rarely'', member_elsewhere = Some False,
      first_time_visitor = Some True, visit_count = 2, last_visit_at = Some 10,
      membership_score = 70, is_membership_prospect = True, source = ''capture'',
      source_id = None\<rparr>"

definition row_vic :: customer where
  "row_vic =
     \<lparr>cust_id = 2, course_id = 1, first_name = Some ''Vic'', last_name = Some ''Ray'',
      email = Some ''vic@y.com'', phone = Some ''9105550000'', zip_code = Some ''28401'',
      booking_source = Some ''golfnow'', is_local = Some False,
      play_frequency = Some ''weekly'', member_elsewhere = Some False,
      first_time_visitor = Some True, visit_count = 1, last_visit_at = Some 8,
      membership_score = 50, is_membership_prospect = False, source = ''capture'',
      source_id = None\<rparr>"


text \<open>
  An upload of three records: an e-mail, a phone number, and both together; and the
  handler's state after the first two.
\<close>

definition csv_clash :: "csv_row list" where
  "csv_clash =
     [[(''email'', ''a@x.com''), (''phone'', '''')],
      [(''email'', ''''), (''phone'', ''8435551234'')],
      [(''email'', ''a@x.com''), (''phone'', ''8435551234'')]]"

definition upload_clash :: upload where
  "upload_clash = \<lparr>originalname = ''members.csv'', file_size = 64, records = csv_clash\<rparr>"

definition st_two :: import_state where
  "st_two = fst (import_loop 1 1 ''generic'' 0 (take 2 csv_clash)
                   \<lparr>st_db = db0, st_failed = False, newCustomers = 0, matchedCustomers = 0,
                    skippedRows = 0, errors = []\<rparr>)"

section \<open>Phone normalisation\<close>

lemma filter_digit_drop:
  "filter is_digit (drop n (filter is_digit s)) = drop n (filter is_digit s)"
  unfolding filter_id_conv by (auto dest: in_set_dropD)

lemma normalizePhone_Some:
  "normalizePhone (Some s) =
     (let digits = filter is_digit s in
      if length digits = 10 then Some digits
      else if length digits = 11 \<and> hd digits = CHR ''1'' then Some (drop 1 digits)
      else None)"
proof (cases "s = []")
  case True
  then show ?thesis by (simp add: normalizePhone_def truthy_def)
next
  case False
  then show ?thesis by (simp add: normalizePhone_def truthy_def)
qed

lemma normalizePhone_None: "normalizePhone None = None"
  by (simp add: normalizePhone_def truthy_def)

lemma normalizePhone_result:
  assumes "normalizePhone x = Some t"
  shows "length t = 10 \<and> filter is_digit t = t"
proof (cases x)
  case None
  with assms show ?thesis by (simp add: normalizePhone_None)
next
  case (Some s)
  let ?d = "filter is_digit s"
  have r: "(length ?d = 10 \<and> t = ?d) \<or> (length ?d = 11 \<and> t = drop 1 ?d)"
    using assms Some by (simp add: normalizePhone_Some Let_def split: if_splits)
  then show ?thesis
  proof
    assume "length ?d = 10 \<and> t = ?d"
    then show ?thesis by simp
  next
    assume a: "length ?d = 11 \<and> t = drop 1 ?d"
    then have "length t = 10" by simp
    moreover from a have "filter is_digit t = t" using filter_digit_drop[of 1 s] by simp
    ultimately show ?thesis by simp
  qed
qed

lemma normalizePhone_fixed:
  assumes "length t = 10" and "filter is_digit t = t"
  shows "normalizePhone (Some t) = Some t"
  using assms by (simp add: normalizePhone_Some Let_def)

lemma normalizePhone_idem: "normalizePhone (normalizePhone x) = normalizePhone x"
proof (cases "normalizePhone x")
  case None
  then show ?thesis by (simp add: normalizePhone_None)
next
  case (Some t)
  then show ?thesis using normalizePhone_result[OF Some] normalizePhone_fixed by simp
qed

text \<open>
  C6. For every input string, \<open>normalizePhone\<close> keeps the digits only; it returns them
  when there are exactly ten, drops a leading \<open>1\<close> when there are eleven and the first
  is \<open>1\<close>, and returns null for every other count. Normalising a normalised value
  returns it unchanged, and a result is null or exactly ten digits.
\<close>

theorem normalizePhone_spec:
  "normalizePhone (Some s) =
     (let digits = filter is_digit s in
      if length digits = 10 then Some digits
      else if length digits = 11 \<and> hd digits = CHR ''1'' then Some (drop 1 digits)
      else None)
   \<and> normalizePhone (normalizePhone x) = normalizePhone x
   \<and> (case normalizePhone x of
        None \<Rightarrow> True
      | Some t \<Rightarrow> length t = 10 \<and> list_all is_digit t)"
proof -
  have "case normalizePhone x of None \<Rightarrow> True | Some t \<Rightarrow> length t = 10 \<and> list_all is_digit t"
  proof (cases "normalizePhone x")
    case None
    then show ?thesis by simp
  next
    case (Some t)
    from normalizePhone_result[OF Some] have "length t = 10" and "filter is_digit t = t"
      by simp_all
    then show ?thesis using Some by (simp add: filter_id_conv list_all_iff)
  qed
  then show ?thesis using normalizePhone_Some normalizePhone_idem by blast
qed

theorem normalizePhone_spec_witness:
  "normalizePhone (Some ''+1 (843) 555-1234'') = Some ''8435551234''
   \<and> normalizePhone (Some ''843.555.1234'') = Some ''8435551234''
   \<and> normalizePhone (Some ''555-1234'') = None
   \<and> normalizePhone (Some ''2 (843) 555-1234'') = None
   \<and> normalizePhone (normalizePhone (Some ''+1 (843) 555-1234'')) = Some ''8435551234''"
proof -
  have a: "normalizePhone (Some ''+1 (843) 555-1234'') = Some ''8435551234''"
    using normalizePhone_spec [of "''+1 (843) 555-1234''" None] by (simp add: is_digit_def)
  have b: "normalizePhone (Some ''843.555.1234'') = Some ''8435551234''"
    using normalizePhone_spec [of "''843.555.1234''" None] by (simp add: is_digit_def)
  have c: "normalizePhone (Some ''555-1234'') = None"
    using normalizePhone_spec [of "''555-1234''" None] by (simp add: is_digit_def)
  have d: "normalizePhone (Some ''2 (843) 555-1234'') = None"
    using normalizePhone_spec [of "''2 (843) 555-1234''" None] by (simp add: is_digit_def)
  have "normalizePhone (normalizePhone (Some ''+1 (843) 555-1234'')) =
        normalizePhone (Some ''+1 (843) 555-1234'')"
    using normalizePhone_spec [of "[]" "Some ''+1 (843) 555-1234''"] by blast
  with a b c d show ?thesis by simp
qed

section \<open>The membership score\<close>

lemma if_add1: "(if P then s + x else s) = s + (if P then x else (0::int))"
  by simp

lemma if_add2: "(if P then s + x else s + y) = s + (if P then x else (y::int))"
  by simp

lemma visit_band:
  "(if v \<ge> 5 then 20 else if v \<ge> 3 then 15 else if v \<ge> 2 then 10 else (0::int)) =
   spec_visit_points v"
  unfolding spec_visit_points_def by (cases "v \<ge> 5"; cases "v \<ge> 3"; cases "v \<ge> 2") auto

lemma calculateMembershipScore_sum:
  "calculateMembershipScore c =
     min ((if is_local c = Some True then 30 else 0)
          + spec_frequency_points (play_frequency c)
          + spec_visit_points (visit_count c)
          + (if member_elsewhere c = Some False then 15 else 0)
          + (if truthy (email c) \<and> truthy (phone c) then 5 else 0)
          + (if truthy (zip_code c) then 5 else 0)) 100"
proof -
  have "calculateMembershipScore c =
     min (0 + (if is_local c = Some True then 30 else 0)
          + (if play_frequency c = Some ''weekly'' then 25
             else if play_frequency c = Some ''monthly'' then 15
             else if play_frequency c = Some ''rarely'' then 5 else 0)
          + (if visit_count c \<ge> 5 then 20 else if visit_count c \<ge> 3 then 15
             else if visit_count c \<ge> 2 then 10 else 0)
          + (if member_elsewhere c = Some False then 15 else 0)
          + (if truthy (email c) \<and> truthy (phone c) then 5 else 0)
          + (if truthy (zip_code c) then 5 else 0)) 100"
    unfolding calculateMembershipScore_def Let_def by (simp only: if_add1 if_add2)
  then show ?thesis
    unfolding visit_band by (simp only: spec_frequency_points_def add_0)
qed

lemma frequency_points_range: "0 \<le> spec_frequency_points f \<and> spec_frequency_points f \<le> 25"
  by (simp add: spec_frequency_points_def)

lemma visit_points_range: "0 \<le> spec_visit_points v \<and> spec_visit_points v \<le> 20"
  by (simp add: spec_visit_points_def)

lemma score_bounds: "0 \<le> calculateMembershipScore c \<and> calculateMembershipScore c \<le> 100"
proof -
  have a: "0 \<le> (if is_local c = Some True then 30 else (0::int))" by simp
  have b: "0 \<le> (if member_elsewhere c = Some False then 15 else (0::int))" by simp
  have d: "0 \<le> (if truthy (email c) \<and> truthy (phone c) then 5 else (0::int))" by simp
  have e: "0 \<le> (if truthy (zip_code c) then 5 else (0::int))" by simp
  show ?thesis
    unfolding calculateMembershipScore_sum
    using a b d e frequency_points_range[of "play_frequency c"]
      visit_points_range[of "visit_count c"]
    by linarith
qed

lemma score_top:
  assumes "is_local c = Some True" "play_frequency c = Some ''weekly''" "visit_count c \<ge> 5"
    "member_elsewhere c = Some False" "truthy (email c)" "truthy (phone c)" "truthy (zip_code c)"
  shows "calculateMembershipScore c = 100"
  unfolding calculateMembershipScore_sum using assms
  by (simp add: spec_frequency_points_def spec_visit_points_def)

text \<open>
  C5. The score is the sum of the point table, the play-frequency band and the
  visit-count band each giving the points of one tier only, clamped to at most 100
  and never negative. With \<open>is_local = true\<close>, \<open>play_frequency = weekly\<close>, a visit count
  of at least 5, \<open>member_elsewhere = false\<close>, e-mail, phone and zip present, it is 100.
\<close>

theorem membership_score_table:
  "calculateMembershipScore c = spec_score c
   \<and> 0 \<le> calculateMembershipScore c \<and> calculateMembershipScore c \<le> 100
   \<and> (is_local c = Some True \<and> play_frequency c = Some ''weekly'' \<and> visit_count c \<ge> 5
        \<and> member_elsewhere c = Some False \<and> truthy (email c) \<and> truthy (phone c)
        \<and> truthy (zip_code c)
      \<longrightarrow> calculateMembershipScore c = 100)"
proof -
  have eq: "calculateMembershipScore c = spec_score c"
    unfolding calculateMembershipScore_sum spec_score_def by (rule min.commute)
  from eq score_bounds score_top show ?thesis by blast
qed

theorem membership_score_table_witness:
  "calculateMembershipScore cust_max = 100 \<and> spec_score cust_max = 100
   \<and> is_local cust_max = Some True \<and> visit_count cust_max = 5"
proof -
  have "calculateMembershipScore cust_max = 100"
    using membership_score_table [of cust_max] by (simp add: cust_max_def truthy_def)
  moreover have "calculateMembershipScore cust_max = spec_score cust_max"
    using membership_score_table [of cust_max] by blast
  ultimately show ?thesis by (simp add: cust_max_def)
qed

section \<open>Reward codes\<close>

lemma reward_loop_eq:
  "reward_loop rnd i code = code @ concat (map (\<lambda>j. charAt chars (rnd j)) [i..<6])"
proof (induction rnd i code rule: reward_loop.induct)
  case (1 rnd i code)
  show ?case
  proof (cases "i < 6")
    case True
    have "reward_loop rnd i code = reward_loop rnd (i + 1) (code @ charAt chars (rnd i))"
      using True by (subst reward_loop.simps) simp
    also have "\<dots> = (code @ charAt chars (rnd i)) @ concat (map (\<lambda>j. charAt chars (rnd j)) [i + 1..<6])"
      using "1.IH"[OF True] .
    also have "\<dots> = code @ concat (map (\<lambda>j. charAt chars (rnd j)) [i..<6])"
      using True by (simp add: upt_conv_Cons)
    finally show ?thesis .
  next
    case False
    then show ?thesis by (subst reward_loop.simps) simp
  qed
qed

lemma generateRewardCode_eq:
  "generateRewardCode rnd =
     ''CP'' @ charAt chars (rnd 0) @ charAt chars (rnd 1) @ charAt chars (rnd 2)
       @ charAt chars (rnd 3) @ charAt chars (rnd 4) @ charAt chars (rnd 5)"
proof -
  have "[0..<6] = [0, 1, 2, 3, 4, 5::nat]" by (simp add: upt_conv_Cons)
  then show ?thesis
    by (simp only: generateRewardCode_def reward_loop_eq list.map concat.simps append_Nil2
        append.simps)
qed

lemma charAt_subset: "set (charAt s i) \<subseteq> set s"
  by (auto simp: charAt_def)

lemma generateRewardCode_chars: "set (generateRewardCode rnd) \<subseteq> set ''CP'' \<union> set chars"
proof -
  have "set (concat (map (\<lambda>j. charAt chars (rnd j)) [0..<6])) \<subseteq> set chars"
    using charAt_subset[of chars] by auto
  then show ?thesis
    unfolding generateRewardCode_def reward_loop_eq set_append by blast
qed

lemma upper_not_lower: "list_all (\<lambda>c. c \<notin> set lower_letters) upper_letters"
  by code_simp

lemma upper_char_fixed: "c \<notin> set lower_letters \<Longrightarrow> upper_char c = c"
proof -
  assume "c \<notin> set lower_letters"
  then have "map_of (zip lower_letters upper_letters) c = None"
    by (simp add: map_of_eq_None_iff lower_letters_def upper_letters_def)
  then show ?thesis by (simp add: upper_char_def)
qed

lemma upper_char_range: "upper_char c = c \<or> upper_char c \<in> set upper_letters"
proof (cases "map_of (zip lower_letters upper_letters) c")
  case None
  then show ?thesis by (simp add: upper_char_def)
next
  case (Some u)
  then have "(c, u) \<in> set (zip lower_letters upper_letters)" by (rule map_of_SomeD)
  then have "u \<in> set upper_letters" by (rule set_zip_rightD)
  with Some show ?thesis by (simp add: upper_char_def)
qed

lemma upper_char_idem: "upper_char (upper_char c) = upper_char c"
proof -
  from upper_char_range[of c] show ?thesis
  proof
    assume "upper_char c = c"
    then show ?thesis by simp
  next
    assume "upper_char c \<in> set upper_letters"
    with upper_not_lower have "upper_char c \<notin> set lower_letters"
      by (simp add: list_all_iff)
    then show ?thesis by (rule upper_char_fixed)
  qed
qed

lemma toUpperCase_idem: "toUpperCase (toUpperCase s) = toUpperCase s"
  by (simp add: toUpperCase_def upper_char_idem)

lemma alphabet_case: "list_all (\<lambda>c. upper_char c = c \<and> upper_char (lower_char c) = c) (''CP'' @ chars)"
  by code_simp

lemma alphabet_upper:
  assumes "c \<in> set ''CP'' \<union> set chars"
  shows "upper_char c = c \<and> upper_char (lower_char c) = c"
  using alphabet_case assms unfolding list_all_iff set_append by blast

lemma generated_upper:
  "toUpperCase (generateRewardCode rnd) = generateRewardCode rnd
   \<and> toUpperCase (toLowerCase (generateRewardCode rnd)) = generateRewardCode rnd"
proof -
  have "\<forall>c \<in> set (generateRewardCode rnd). upper_char c = c \<and> upper_char (lower_char c) = c"
    using generateRewardCode_chars[of rnd] alphabet_upper by blast
  then have "map upper_char (generateRewardCode rnd) = generateRewardCode rnd"
    and "map (upper_char \<circ> lower_char) (generateRewardCode rnd) = generateRewardCode rnd"
    by (simp_all add: map_idI)
  then show ?thesis by (simp add: toUpperCase_def toLowerCase_def)
qed

section \<open>Redemption\<close>










lemma upper_cpabcdef: "toUpperCase ''cpabcdef'' = ''CPABCDEF''"
  by code_simp

lemma db_one_unredeemed: "unredeemed (captures db_one) ''CPABCDEF''"
  by (simp add: db_one_def db0_def cap_one_def unredeemed_def redeem_where_def)

text \<open>
  C10. The redeem routes and the status check upper-case the submitted code before
  matching: two submitted codes with the same upper-case form give the same result, a
  code gives the result of its upper-case form, \<open>cpabc123\<close> addresses \<open>CPABC123\<close>, and a
  generated code is its own upper-case form, also after lower-casing it.
\<close>

theorem reward_code_case_insensitive:
  "(toUpperCase a = toUpperCase b \<longrightarrow>
      redeem_server d now a staff = redeem_server d now b staff
      \<and> redeem_part000 d now a staff = redeem_part000 d now b staff
      \<and> get_reward d a = get_reward d b)
   \<and> redeem_server d now code staff = redeem_server d now (toUpperCase code) staff
   \<and> redeem_part000 d now code staff = redeem_part000 d now (toUpperCase code) staff
   \<and> get_reward d code = get_reward d (toUpperCase code)
   \<and> toUpperCase ''cpabc123'' = ''CPABC123''
   \<and> toUpperCase (generateRewardCode rnd) = generateRewardCode rnd
   \<and> toUpperCase (toLowerCase (generateRewardCode rnd)) = generateRewardCode rnd"
proof -
  have same: "toUpperCase a = toUpperCase b \<longrightarrow>
      redeem_server d now a staff = redeem_server d now b staff
      \<and> redeem_part000 d now a staff = redeem_part000 d now b staff
      \<and> get_reward d a = get_reward d b"
  proof
    assume e: "toUpperCase a = toUpperCase b"
    show "redeem_server d now a staff = redeem_server d now b staff
      \<and> redeem_part000 d now a staff = redeem_part000 d now b staff
      \<and> get_reward d a = get_reward d b"
      unfolding redeem_server_def redeem_part000_def get_reward_def e
      by (intro conjI refl)
  qed
  have up: "redeem_server d now code staff = redeem_server d now (toUpperCase code) staff
      \<and> redeem_part000 d now code staff = redeem_part000 d now (toUpperCase code) staff
      \<and> get_reward d code = get_reward d (toUpperCase code)"
    unfolding redeem_server_def redeem_part000_def get_reward_def toUpperCase_idem
    by (intro conjI refl)
  have ex: "toUpperCase ''cpabc123'' = ''CPABC123''"
    by code_simp
  from same up ex generated_upper[of rnd] show ?thesis by blast
qed

theorem reward_code_case_insensitive_witness:
  "toUpperCase ''cpabcdef'' = toUpperCase ''CPABCDEF''
   \<and> redeem_server db_one 9 ''cpabcdef'' (Some ''Joe'') =
       redeem_server db_one 9 ''CPABCDEF'' (Some ''Joe'')
   \<and> redeem_part000 db_one 9 ''cpabcdef'' (Some ''Joe'') =
       redeem_part000 db_one 9 ''CPABCDEF'' (Some ''Joe'')
   \<and> get_reward db_one ''cpabcdef'' = get_reward db_one ''CPABCDEF''
   \<and> get_reward db_one ''cpabcdef'' = Some (cap_one, Some ''Ann'', Some ''Lee'')"
proof -
  have e: "toUpperCase ''cpabcdef'' = toUpperCase ''CPABCDEF''"
    by code_simp
  have g: "get_reward db_one ''CPABCDEF'' = Some (cap_one, Some ''Ann'', Some ''Lee'')"
    using upper_cpabcdef e
    by (simp add: get_reward_def db_one_def db0_def select_customer_def cap_one_def
        cust_max_def)
  from e g
    reward_code_case_insensitive[of "''cpabcdef''" "''CPABCDEF''" db_one 9 "Some ''Joe''"]
  show ?thesis by simp
qed

section \<open>Tables\<close>

lemma fold_max_start: "a \<le> fold max xs (a::nat)"
proof (induction xs arbitrary: a)
  case Nil
  then show ?case by simp
next
  case (Cons y ys)
  have "a \<le> max y a" by simp
  also have "\<dots> \<le> fold max ys (max y a)" by (rule Cons.IH)
  finally show ?case by simp
qed

lemma fold_max_member: "x \<in> set xs \<Longrightarrow> x \<le> fold max xs (a::nat)"
proof (induction xs arbitrary: a)
  case Nil
  then show ?case by simp
next
  case (Cons y ys)
  show ?case
  proof (cases "x = y")
    case True
    have "y \<le> max y a" by simp
    also have "\<dots> \<le> fold max ys (max y a)" by (rule fold_max_start)
    finally show ?thesis using True by simp
  next
    case False
    with Cons.prems have "x \<in> set ys" by simp
    from Cons.IH[OF this] show ?thesis by simp
  qed
qed

lemma fresh_id_fresh: "fresh_id ids \<notin> set ids"
proof
  assume "fresh_id ids \<in> set ids"
  from fold_max_member[OF this, of 0] show False by (simp add: fresh_id_def)
qed

lemma select_customer_map:
  assumes "\<And>c. cust_id (f c) = cust_id c"
  shows "select_customer (map (\<lambda>c. if cust_id c = cid then f c else c) cs) k =
           (if k = cid then map_option f (select_customer cs k) else select_customer cs k)"
  unfolding select_customer_def by (induction cs) (auto simp: assms)

lemma update_customer_Inr:
  assumes "update_customer cid f cs = Inr cs'"
  shows "cs' = map (\<lambda>c. if cust_id c = cid then f c else c) cs"
  using assms by (simp add: update_customer_def split: list.splits)

lemma insert_customer_Inr:
  assumes "insert_customer r cs = Inr cs'"
  shows "cs' = cs @ [r]"
  using assms by (simp add: insert_customer_def split: option.splits)

lemma score_set_fields:
  "cust_id (score_set s p c) = cust_id c"
  "course_id (score_set s p c) = course_id c"
  "first_name (score_set s p c) = first_name c"
  "last_name (score_set s p c) = last_name c"
  "email (score_set s p c) = email c"
  "phone (score_set s p c) = phone c"
  "zip_code (score_set s p c) = zip_code c"
  "booking_source (score_set s p c) = booking_source c"
  "is_local (score_set s p c) = is_local c"
  "play_frequency (score_set s p c) = play_frequency c"
  "member_elsewhere (score_set s p c) = member_elsewhere c"
  "visit_count (score_set s p c) = visit_count c"
  "last_visit_at (score_set s p c) = last_visit_at c"
  "membership_score (score_set s p c) = s"
  "is_membership_prospect (score_set s p c) = p"
  by (simp_all add: score_set_def)

lemma capture_update_set_fields:
  "cust_id (capture_update_set req ne np now c) = cust_id c"
  "course_id (capture_update_set req ne np now c) = course_id c"
  "first_name (capture_update_set req ne np now c) = coalesce (firstName req) (first_name c)"
  "last_name (capture_update_set req ne np now c) = coalesce (lastName req) (last_name c)"
  "email (capture_update_set req ne np now c) = coalesce ne (email c)"
  "phone (capture_update_set req ne np now c) = coalesce np (phone c)"
  "zip_code (capture_update_set req ne np now c) = coalesce (req_zip req) (zip_code c)"
  "booking_source (capture_update_set req ne np now c) =
     coalesce (bookingSource req) (booking_source c)"
  "is_local (capture_update_set req ne np now c) = coalesce (isLocal req) (is_local c)"
  "play_frequency (capture_update_set req ne np now c) =
     coalesce (playFrequency req) (play_frequency c)"
  "member_elsewhere (capture_update_set req ne np now c) =
     coalesce (memberElsewhere req) (member_elsewhere c)"
  "visit_count (capture_update_set req ne np now c) = visit_count c + 1"
  "last_visit_at (capture_update_set req ne np now c) = Some now"
  by (simp_all add: capture_update_set_def)

section \<open>The capture transaction\<close>

lemma upsert_customer_existing:
  assumes "upsert_customer cs courseId (Some c) req ne np now = Inr (cid, cs1)"
  shows "cid = cust_id c
         \<and> cs1 = map (\<lambda>x. if cust_id x = cid then capture_update_set req ne np now x else x) cs"
  using assms update_customer_Inr
  by (auto simp: upsert_customer_def split: sum.splits)

lemma update_score_result:
  assumes "update_score cid cs = Inr (p, cs')"
  shows "\<exists>row. select_customer cs cid = Some row
           \<and> p = (calculateMembershipScore row \<ge> 60 \<and> is_local row = Some True)
           \<and> select_customer cs' cid = Some (score_set (calculateMembershipScore row) p row)"
proof (cases "select_customer cs cid")
  case None
  with assms show ?thesis by (simp add: update_score_def)
next
  case (Some row)
  with assms have p: "p = (calculateMembershipScore row \<ge> 60 \<and> is_local row = Some True)"
    and cs': "cs' = map (\<lambda>c. if cust_id c = cid
                            then score_set (calculateMembershipScore row) p c else c) cs"
    by (auto simp: update_score_def Let_def)
  have "select_customer cs' cid = Some (score_set (calculateMembershipScore row) p row)"
    unfolding cs' using Some
    by (simp add: select_customer_map[where f = "score_set (calculateMembershipScore row) p"]
        score_set_fields)
  with Some p show ?thesis by simp
qed

lemma capture_txn_server_steps:
  assumes "capture_txn_server d now rnd req = Inr (d', r)"
  shows "\<exists>courseId cs1 p.
           select_course d (slug_or_default (courseSlug req)) = Some courseId
         \<and> upsert_customer (customers d) courseId
             (match_server (customers d) courseId (normalizeEmail (req_email req))
                (normalizePhone (req_phone req)))
             req (normalizeEmail (req_email req)) (normalizePhone (req_phone req)) now
             = Inr (customerId r, cs1)
         \<and> update_score (customerId r) cs1 = Inr (p, customers d')
         \<and> captures d' = captures d @
               [capture_row (fresh_id (map cap_id (captures d))) courseId (customerId r) req
                  (generateRewardCode rnd) (Some ''free_beer'') now]
         \<and> isNewCustomer r =
             (match_server (customers d) courseId (normalizeEmail (req_email req))
                (normalizePhone (req_phone req)) = None)
         \<and> rewardCode r = generateRewardCode rnd"
  using assms
  by (auto simp: capture_txn_server_def Let_def insert_capture_def
      split: option.splits sum.splits prod.splits if_splits)

lemma capture_txn_part000_steps:
  assumes "capture_txn_part000 d now rnd req = Inr (d', r)"
  shows "\<exists>courseId cs1 p existing.
           select_course d (slug_or_default (courseSlug req)) = Some courseId
         \<and> existing = (if truthy (normalizeEmail (req_email req))
                        then select_by_email (customers d) courseId
                               (the (normalizeEmail (req_email req)))
                        else None)
         \<and> upsert_customer (customers d) courseId existing
             req (normalizeEmail (req_email req)) (normalizePhone (req_phone req)) now
             = Inr (customerId r, cs1)
         \<and> update_score (customerId r) cs1 = Inr (p, customers d')
         \<and> captures d' = captures d @
               [capture_row (fresh_id (map cap_id (captures d))) courseId (customerId r) req
                  (generateRewardCode rnd) (fst (resolve_reward (chosenReward req))) now]
         \<and> isNewCustomer r = (existing = None)
         \<and> rewardCode r = generateRewardCode rnd"
  using assms
  by (auto simp: capture_txn_part000_def Let_def insert_capture_def
      split: option.splits sum.splits prod.splits if_splits)

lemma score_of_score_set:
  "calculateMembershipScore (score_set s p c) = calculateMembershipScore c"
  by (simp add: calculateMembershipScore_sum score_set_fields)

lemma update_score_flag:
  assumes "update_score cid cs = Inr (p, cs')"
  shows "\<exists>c. select_customer cs' cid = Some c
           \<and> membership_score c = calculateMembershipScore c
           \<and> is_membership_prospect c = (membership_score c \<ge> 60 \<and> is_local c = Some True)"
proof -
  from update_score_result[OF assms] obtain row where
    p: "p = (calculateMembershipScore row \<ge> 60 \<and> is_local row = Some True)"
    and sel: "select_customer cs' cid = Some (score_set (calculateMembershipScore row) p row)"
    by blast
  let ?c = "score_set (calculateMembershipScore row) p row"
  have "membership_score ?c = calculateMembershipScore ?c"
    by (simp add: score_of_score_set score_set_fields)
  moreover have "is_membership_prospect ?c = (membership_score ?c \<ge> 60 \<and> is_local ?c = Some True)"
    using p by (simp add: score_set_fields)
  ultimately show ?thesis using sel by blast
qed

text \<open>
  C2. After a capture is committed (by either variant of the route), the row of the
  captured customer has \<open>membership_score\<close> equal to the score computed from it and
  \<open>is_membership_prospect = (membership_score >= 60 AND is_local = true)\<close>; so a
  customer whose \<open>is_local\<close> is not \<open>true\<close> is never flagged.
\<close>

theorem prospect_flag_after_capture:
  "(capture_txn_server d now rnd req = Inr (d', r)
    \<or> capture_txn_part000 d now rnd req = Inr (d', r)) \<longrightarrow>
   (\<exists>c. select_customer (customers d') (customerId r) = Some c
      \<and> membership_score c = calculateMembershipScore c
      \<and> is_membership_prospect c = (membership_score c \<ge> 60 \<and> is_local c = Some True)
      \<and> (is_local c \<noteq> Some True \<longrightarrow> \<not> is_membership_prospect c))"
proof
  assume "capture_txn_server d now rnd req = Inr (d', r)
    \<or> capture_txn_part000 d now rnd req = Inr (d', r)"
  then obtain cs1 p where "update_score (customerId r) cs1 = Inr (p, customers d')"
    using capture_txn_server_steps[of d now rnd req d' r]
      capture_txn_part000_steps[of d now rnd req d' r]
    by blast
  from update_score_flag[OF this] show "\<exists>c. select_customer (customers d') (customerId r) = Some c
      \<and> membership_score c = calculateMembershipScore c
      \<and> is_membership_prospect c = (membership_score c \<ge> 60 \<and> is_local c = Some True)
      \<and> (is_local c \<noteq> Some True \<longrightarrow> \<not> is_membership_prospect c)"
    by blast
qed

lemma txn_ann: "capture_txn_server db0 7 (\<lambda>i. i) req_ann = Inr (db_ann, res_ann)"
  unfolding db_ann_def res_ann_def capture_server_def by code_simp

lemma customers_ann:
  "customers db_ann = [cust_max\<lparr>visit_count := 1, first_time_visitor := Some True,
      membership_score := 80, is_membership_prospect := True\<rparr>]"
  unfolding db_ann_def capture_server_def cust_max_def by code_simp

theorem prospect_flag_after_capture_witness:
  "capture_txn_server db0 7 (\<lambda>i. i) req_ann = Inr (db_ann, res_ann)
   \<and> (\<exists>c. select_customer (customers db_ann) (customerId res_ann) = Some c
         \<and> membership_score c = 80 \<and> is_membership_prospect c \<and> is_local c = Some True)"
proof -
  from prospect_flag_after_capture[of db0 7 "\<lambda>i. i" req_ann db_ann res_ann] txn_ann
  obtain c where c: "select_customer (customers db_ann) (customerId res_ann) = Some c"
    "is_membership_prospect c = (membership_score c \<ge> 60 \<and> is_local c = Some True)"
    by blast
  from c(1) have "c = cust_max\<lparr>visit_count := 1, first_time_visitor := Some True,
      membership_score := 80, is_membership_prospect := True\<rparr>"
    by (simp add: customers_ann select_customer_def res_ann_def cust_max_def)
  then have "membership_score c = 80" "is_local c = Some True"
    by (simp_all add: cust_max_def)
  with c txn_ann show ?thesis by simp
qed

lemma select_customer_of_member:
  assumes "c \<in> set cs"
  shows "\<exists>old. select_customer cs (cust_id c) = Some old"
proof (cases "select_customer cs (cust_id c)")
  case None
  with assms show ?thesis by (auto simp: select_customer_def find_None_iff)
next
  case (Some old)
  then show ?thesis by blast
qed

lemma find_member: "find P xs = Some x \<Longrightarrow> x \<in> set xs"
  by (auto simp: find_Some_iff)

lemma match_server_member:
  assumes "match_server cs courseId ne np = Some c"
  shows "c \<in> set cs"
  using assms
  by (auto simp: match_server_def Let_def select_by_email_def select_by_phone_def
      split: if_splits dest: find_member)

lemma merged_row:
  assumes mem: "c \<in> set cs"
    and up: "upsert_customer cs courseId (Some c) req ne np now = Inr (cid, cs1)"
    and sc: "update_score cid cs1 = Inr (p, cs2)"
  shows "\<exists>old s. select_customer cs cid = Some old
           \<and> select_customer cs2 cid = Some (score_set s p (capture_update_set req ne np now old))"
proof -
  from upsert_customer_existing[OF up] have cid: "cid = cust_id c"
    and cs1: "cs1 = map (\<lambda>x. if cust_id x = cid then capture_update_set req ne np now x else x) cs"
    by simp_all
  from select_customer_of_member[OF mem] cid obtain old where
    old: "select_customer cs cid = Some old" by blast
  have row: "select_customer cs1 cid = Some (capture_update_set req ne np now old)"
    unfolding cs1 using old
    by (simp add: select_customer_map[where f = "capture_update_set req ne np now"]
        capture_update_set_fields)
  from update_score_result[OF sc] row
  have "select_customer cs2 cid =
          Some (score_set (calculateMembershipScore (capture_update_set req ne np now old)) p
                  (capture_update_set req ne np now old))"
    by auto
  with old show ?thesis by blast
qed

lemma capture_existing_row:
  assumes "capture_txn_server d now rnd req = Inr (d', r)
           \<or> capture_txn_part000 d now rnd req = Inr (d', r)"
    and "\<not> isNewCustomer r"
  shows "\<exists>old s p. select_customer (customers d) (customerId r) = Some old
           \<and> select_customer (customers d') (customerId r) =
               Some (score_set s p
                       (capture_update_set req (normalizeEmail (req_email req))
                          (normalizePhone (req_phone req)) now old))"
  using assms(1)
proof
  assume "capture_txn_server d now rnd req = Inr (d', r)"
  from capture_txn_server_steps[OF this] assms(2) obtain courseId cs1 p c where
    m: "match_server (customers d) courseId (normalizeEmail (req_email req))
          (normalizePhone (req_phone req)) = Some c"
    and up: "upsert_customer (customers d) courseId (Some c) req (normalizeEmail (req_email req))
               (normalizePhone (req_phone req)) now = Inr (customerId r, cs1)"
    and sc: "update_score (customerId r) cs1 = Inr (p, customers d')"
    by force
  from merged_row[OF match_server_member[OF m] up sc] show ?thesis by blast
next
  assume "capture_txn_part000 d now rnd req = Inr (d', r)"
  from capture_txn_part000_steps[OF this] assms(2) obtain courseId cs1 p c where
    m: "(if truthy (normalizeEmail (req_email req))
         then select_by_email (customers d) courseId (the (normalizeEmail (req_email req)))
         else None) = Some c"
    and up: "upsert_customer (customers d) courseId (Some c) req (normalizeEmail (req_email req))
               (normalizePhone (req_phone req)) now = Inr (customerId r, cs1)"
    and sc: "update_score (customerId r) cs1 = Inr (p, customers d')"
    by force
  from m have "c \<in> set (customers d)"
    by (auto simp: select_by_email_def split: if_splits dest: find_member)
  from merged_row[OF this up sc] show ?thesis by blast
qed

text \<open>
  C1, as amended. When a submission matches an existing customer (in either variant of
  the route), each profile attribute becomes the submitted value if that is not null
  and keeps the stored value otherwise: \<open>COALESCE($n, column)\<close>. The visit count grows
  by one and the last visit is now.
\<close>

theorem capture_merge_latest_wins:
  "(capture_txn_server d now rnd req = Inr (d', r)
    \<or> capture_txn_part000 d now rnd req = Inr (d', r))
   \<and> \<not> isNewCustomer r \<longrightarrow>
   (\<exists>old new. select_customer (customers d) (customerId r) = Some old
      \<and> select_customer (customers d') (customerId r) = Some new
      \<and> first_name new = (case firstName req of Some v \<Rightarrow> Some v | None \<Rightarrow> first_name old)
      \<and> last_name new = (case lastName req of Some v \<Rightarrow> Some v | None \<Rightarrow> last_name old)
      \<and> email new = (case normalizeEmail (req_email req) of Some v \<Rightarrow> Some v
                       | None \<Rightarrow> email old)
      \<and> phone new = (case normalizePhone (req_phone req) of Some v \<Rightarrow> Some v
                       | None \<Rightarrow> phone old)
      \<and> zip_code new = (case req_zip req of Some v \<Rightarrow> Some v | None \<Rightarrow> zip_code old)
      \<and> booking_source new = (case bookingSource req of Some v \<Rightarrow> Some v
                                | None \<Rightarrow> booking_source old)
      \<and> is_local new = (case isLocal req of Some v \<Rightarrow> Some v | None \<Rightarrow> is_local old)
      \<and> play_frequency new = (case playFrequency req of Some v \<Rightarrow> Some v
                                | None \<Rightarrow> play_frequency old)
      \<and> member_elsewhere new = (case memberElsewhere req of Some v \<Rightarrow> Some v
                                  | None \<Rightarrow> member_elsewhere old)
      \<and> visit_count new = visit_count old + 1
      \<and> last_visit_at new = Some now)"
proof
  assume a: "(capture_txn_server d now rnd req = Inr (d', r)
    \<or> capture_txn_part000 d now rnd req = Inr (d', r)) \<and> \<not> isNewCustomer r"
  then obtain old s p where
    old: "select_customer (customers d) (customerId r) = Some old"
    and new: "select_customer (customers d') (customerId r) =
               Some (score_set s p
                       (capture_update_set req (normalizeEmail (req_email req))
                          (normalizePhone (req_phone req)) now old))"
    using capture_existing_row[of d now rnd req d' r] by blast
  show "\<exists>old new. select_customer (customers d) (customerId r) = Some old
      \<and> select_customer (customers d') (customerId r) = Some new
      \<and> first_name new = (case firstName req of Some v \<Rightarrow> Some v | None \<Rightarrow> first_name old)
      \<and> last_name new = (case lastName req of Some v \<Rightarrow> Some v | None \<Rightarrow> last_name old)
      \<and> email new = (case normalizeEmail (req_email req) of Some v \<Rightarrow> Some v
                       | None \<Rightarrow> email old)
      \<and> phone new = (case normalizePhone (req_phone req) of Some v \<Rightarrow> Some v
                       | None \<Rightarrow> phone old)
      \<and> zip_code new = (case req_zip req of Some v \<Rightarrow> Some v | None \<Rightarrow> zip_code old)
      \<and> booking_source new = (case bookingSource req of Some v \<Rightarrow> Some v
                                | None \<Rightarrow> booking_source old)
      \<and> is_local new = (case isLocal req of Some v \<Rightarrow> Some v | None \<Rightarrow> is_local old)
      \<and> play_frequency new = (case playFrequency req of Some v \<Rightarrow> Some v
                                | None \<Rightarrow> play_frequency old)
      \<and> member_elsewhere new = (case memberElsewhere req of Some v \<Rightarrow> Some v
                                  | None \<Rightarrow> member_elsewhere old)
      \<and> visit_count new = visit_count old + 1
      \<and> last_visit_at new = Some now"
    apply (rule exI[of _ old])
    apply (rule exI[of _ "score_set s p
                       (capture_update_set req (normalizeEmail (req_email req))
                          (normalizePhone (req_phone req)) now old)"])
    apply (simp only: old new score_set_fields capture_update_set_fields coalesce_def)
    done
qed


theorem capture_merge_latest_wins_witness:
  "capture_txn_server db_ann 8 (\<lambda>i. i) req_bob =
     Inr (fst (capture_server db_ann 8 (\<lambda>i. i) req_bob),
          \<lparr>rewardCode = ''CPABCDEF'', rewardDescription = None, isNewCustomer = False,
           customerId = 1\<rparr>)
   \<and> (\<exists>old new. select_customer (customers db_ann) 1 = Some old
        \<and> select_customer (customers (fst (capture_server db_ann 8 (\<lambda>i. i) req_bob))) 1 = Some new
        \<and> first_name old = Some ''Ann'' \<and> first_name new = Some ''Bob''
        \<and> last_name new = last_name old
        \<and> visit_count new = visit_count old + 1)"
proof -
  let ?d' = "fst (capture_server db_ann 8 (\<lambda>i. i) req_bob)"
  let ?r = "\<lparr>rewardCode = ''CPABCDEF'', rewardDescription = None, isNewCustomer = False,
           customerId = 1\<rparr>"
  have txn: "capture_txn_server db_ann 8 (\<lambda>i. i) req_bob = Inr (?d', ?r)"
    unfolding db_ann_def req_bob_def capture_server_def by code_simp
  have old: "select_customer (customers db_ann) 1 =
      Some (cust_max\<lparr>visit_count := 1, first_time_visitor := Some True,
              membership_score := 80, is_membership_prospect := True\<rparr>)"
    by (simp add: customers_ann select_customer_def cust_max_def)
  have req: "firstName req_bob = Some ''Bob''" "lastName req_bob = Some ''Lee''"
    by (simp_all add: req_bob_def req_ann_def)
  from capture_merge_latest_wins[of db_ann 8 "\<lambda>i. i" req_bob ?d' ?r] txn
  obtain old' new where
    o: "select_customer (customers db_ann) (customerId ?r) = Some old'"
    and n: "select_customer (customers ?d') (customerId ?r) = Some new"
    and f: "first_name new = (case firstName req_bob of Some v \<Rightarrow> Some v
                              | None \<Rightarrow> first_name old')"
    and l: "last_name new = (case lastName req_bob of Some v \<Rightarrow> Some v
                             | None \<Rightarrow> last_name old')"
    and v: "visit_count new = visit_count old' + 1"
    by auto
  from o old have "first_name old' = Some ''Ann''" "last_name old' = Some ''Lee''"
    by (auto simp: cust_max_def)
  with o n f l v req txn show ?thesis by auto
qed

text \<open>
  The claim as stated fails: the stored first name \<open>Ann\<close> is replaced by the submitted
  \<open>Bob\<close>, in \<open>server.js\<close> and in \<open>part_000\<close>.
\<close>

theorem capture_overwrites_counterexample:
  "map first_name (customers db_ann) = [Some ''Ann'']
   \<and> snd (capture_server db_ann 8 (\<lambda>i. i) req_bob) = CaptureOk ''CPABCDEF'' False 1
   \<and> map first_name (customers (fst (capture_server db_ann 8 (\<lambda>i. i) req_bob))) = [Some ''Bob'']
   \<and> map first_name (customers db_imported) = [Some ''Ann'']
   \<and> snd (capture_part000 db_imported 8 (\<lambda>i. i) req_bob) =
       CaptureOkByEmail (Some ''Free beer after your round'') False 1
   \<and> map first_name (customers (fst (capture_part000 db_imported 8 (\<lambda>i. i) req_bob))) =
       [Some ''Bob'']"
  unfolding db_ann_def db_imported_def req_bob_def by code_simp

section \<open>The claim-once rule of part 000\<close>

text \<open>
  C4. In \<open>part_000\<close>, when the course exists, an e-mail is submitted (its normalised
  form is a non-empty string, the handler's own test) and a capture is recorded for a
  customer of that course with that e-mail, the submission is answered with status 400
  \<open>already_claimed\<close> and the database is the one before the request: no customer is
  created or changed, no capture is inserted and no code is issued.
\<close>

theorem already_claimed_rejected:
  assumes course: "select_course d (slug_or_default (courseSlug req)) = Some courseId"
    and mail: "normalizeEmail (req_email req) = Some e" "e \<noteq> []"
    and cap: "cap \<in> set (captures d)"
    and cu: "cu \<in> set (customers d)" "customer_id cap = Some (cust_id cu)"
      "course_id cu = courseId" "email cu = Some e"
  shows "capture_part000 d now rnd req = (d, Rejected400 ''already_claimed'')"
proof -
  have "claimed_by_email d courseId e"
    using cap cu unfolding claimed_by_email_def list_ex_iff by blast
  then have "capture_txn_part000 d now rnd req = Inl AlreadyClaimed"
    using course mail by (simp add: capture_txn_part000_def Let_def truthy_def)
  then show ?thesis
    by (simp add: capture_part000_def error_message_of_def)
qed

theorem already_claimed_rejected_witness:
  "select_course db_one (slug_or_default (courseSlug req_ann)) = Some 1
   \<and> normalizeEmail (req_email req_ann) = Some ''ann@x.com''
   \<and> cap_one \<in> set (captures db_one) \<and> cust_max \<in> set (customers db_one)
   \<and> customer_id cap_one = Some (cust_id cust_max)
   \<and> course_id cust_max = 1 \<and> email cust_max = Some ''ann@x.com''
   \<and> capture_part000 db_one 8 (\<lambda>i. i) req_ann = (db_one, Rejected400 ''already_claimed'')"
proof -
  have course: "select_course db_one (slug_or_default (courseSlug req_ann)) = Some 1"
    by (simp add: select_course_def db_one_def db0_def slug_or_default_def req_ann_def
        truthy_def)
  have mail: "normalizeEmail (req_email req_ann) = Some ''ann@x.com''"
    unfolding req_ann_def by code_simp
  have ne: "''ann@x.com'' \<noteq> []" by simp
  have cap: "cap_one \<in> set (captures db_one)" by (simp add: db_one_def db0_def)
  have cu: "cust_max \<in> set (customers db_one)" by (simp add: db_one_def db0_def)
  have link: "customer_id cap_one = Some (cust_id cust_max)"
    by (simp add: cap_one_def cust_max_def)
  have c1: "course_id cust_max = 1" and c2: "email cust_max = Some ''ann@x.com''"
    by (simp_all add: cust_max_def)
  from already_claimed_rejected[OF course mail ne cap cu link c1 c2, of 8 "\<lambda>i. i"]
    course mail cap cu link c1 c2
  show ?thesis by simp
qed

section \<open>Reward codes and the random draws\<close>

lemma chars_distinct: "distinct chars"
  by code_simp

lemma chars_length: "length chars = 32"
  by code_simp

lemma charAt_in_range: "i < 32 \<Longrightarrow> charAt chars i = [chars ! i]"
  by (simp add: charAt_def chars_length)

lemma chars_nth_inj: "i < 32 \<Longrightarrow> j < 32 \<Longrightarrow> chars ! i = chars ! j \<longleftrightarrow> i = j"
  using nth_eq_iff_index_eq[OF chars_distinct, of i j] by (simp add: chars_length)

lemma less_six: "i < (6::nat) \<Longrightarrow> i = 0 \<or> i = 1 \<or> i = 2 \<or> i = 3 \<or> i = 4 \<or> i = 5"
  by arith

lemma generateRewardCode_inj:
  assumes r: "\<forall>i<6. rnd1 i < 32 \<and> rnd2 i < 32"
  shows "generateRewardCode rnd1 = generateRewardCode rnd2 \<longleftrightarrow> (\<forall>i<6. rnd1 i = rnd2 i)"
proof
  assume eq: "generateRewardCode rnd1 = generateRewardCode rnd2"
  from r have b: "rnd1 0 < 32" "rnd1 1 < 32" "rnd1 2 < 32" "rnd1 3 < 32" "rnd1 4 < 32"
    "rnd1 5 < 32" "rnd2 0 < 32" "rnd2 1 < 32" "rnd2 2 < 32" "rnd2 3 < 32" "rnd2 4 < 32"
    "rnd2 5 < 32"
    by simp_all
  from eq b have "rnd1 0 = rnd2 0 \<and> rnd1 1 = rnd2 1 \<and> rnd1 2 = rnd2 2 \<and> rnd1 3 = rnd2 3
                \<and> rnd1 4 = rnd2 4 \<and> rnd1 5 = rnd2 5"
    by (simp add: generateRewardCode_eq charAt_in_range chars_nth_inj)
  then show "\<forall>i<6. rnd1 i = rnd2 i"
    using less_six by blast
next
  assume "\<forall>i<6. rnd1 i = rnd2 i"
  then have "rnd1 0 = rnd2 0" "rnd1 1 = rnd2 1" "rnd1 2 = rnd2 2" "rnd1 3 = rnd2 3"
    "rnd1 4 = rnd2 4" "rnd1 5 = rnd2 5"
    by simp_all
  then show "generateRewardCode rnd1 = generateRewardCode rnd2"
    by (simp add: generateRewardCode_eq)
qed

lemma generateRewardCode_shape:
  assumes r: "\<forall>i<6. rnd i < 32"
  shows "length (generateRewardCode rnd) = 8 \<and> take 2 (generateRewardCode rnd) = ''CP''
         \<and> set (drop 2 (generateRewardCode rnd)) \<subseteq> set chars"
proof -
  from r have b: "rnd 0 < 32" "rnd 1 < 32" "rnd 2 < 32" "rnd 3 < 32" "rnd 4 < 32" "rnd 5 < 32"
    by simp_all
  then have "chars ! rnd 0 \<in> set chars" "chars ! rnd 1 \<in> set chars" "chars ! rnd 2 \<in> set chars"
    "chars ! rnd 3 \<in> set chars" "chars ! rnd 4 \<in> set chars" "chars ! rnd 5 \<in> set chars"
    by (simp_all add: chars_length)
  with b show ?thesis
    by (simp add: generateRewardCode_eq charAt_in_range)
qed

lemma capture_inserts_code:
  assumes "capture_txn_server d now rnd req = Inr (d', r)
           \<or> capture_txn_part000 d now rnd req = Inr (d', r)"
  shows "\<exists>cap. captures d' = captures d @ [cap] \<and> reward_code cap = generateRewardCode rnd
           \<and> cap_id cap \<notin> cap_id ` set (captures d) \<and> rewardCode r = generateRewardCode rnd"
proof -
  from assms obtain courseId rt where
    c: "captures d' = captures d @
               [capture_row (fresh_id (map cap_id (captures d))) courseId (customerId r) req
                  (generateRewardCode rnd) rt now]"
    and rc: "rewardCode r = generateRewardCode rnd"
    using capture_txn_server_steps[of d now rnd req d' r]
      capture_txn_part000_steps[of d now rnd req d' r]
    by blast
  let ?cap = "capture_row (fresh_id (map cap_id (captures d))) courseId (customerId r) req
                  (generateRewardCode rnd) rt now"
  have "reward_code ?cap = generateRewardCode rnd"
    and "cap_id ?cap = fresh_id (map cap_id (captures d))"
    by (simp_all add: capture_row_def)
  moreover have "fresh_id (map cap_id (captures d)) \<notin> cap_id ` set (captures d)"
    using fresh_id_fresh[of "map cap_id (captures d)"] by simp
  ultimately show ?thesis using c rc by auto
qed


text \<open>
  C9, as amended. Neither generation nor insertion checks a reward code against the
  stored ones, and the schema has no uniqueness constraint on \<open>reward_code\<close>. Every
  committed capture appends one row, with a fresh identifier, that stores the code
  generated from the request's six draws. With draws below 32 the code is \<open>CP\<close>
  followed by six symbols of the alphabet, and two codes are equal exactly when the
  draws agree in all six positions.
\<close>

theorem reward_codes_follow_draws:
  "((capture_txn_server d now rnd req = Inr (d', r)
     \<or> capture_txn_part000 d now rnd req = Inr (d', r)) \<longrightarrow>
      (\<exists>cap. captures d' = captures d @ [cap] \<and> reward_code cap = generateRewardCode rnd
         \<and> cap_id cap \<notin> cap_id ` set (captures d)))
   \<and> ((\<forall>i<6. rnd1 i < 32 \<and> rnd2 i < 32) \<longrightarrow>
        length (generateRewardCode rnd1) = 8 \<and> take 2 (generateRewardCode rnd1) = ''CP''
        \<and> set (drop 2 (generateRewardCode rnd1)) \<subseteq> set chars
        \<and> (generateRewardCode rnd1 = generateRewardCode rnd2 \<longleftrightarrow> (\<forall>i<6. rnd1 i = rnd2 i)))"
proof -
  have a: "(capture_txn_server d now rnd req = Inr (d', r)
     \<or> capture_txn_part000 d now rnd req = Inr (d', r)) \<longrightarrow>
      (\<exists>cap. captures d' = captures d @ [cap] \<and> reward_code cap = generateRewardCode rnd
         \<and> cap_id cap \<notin> cap_id ` set (captures d))"
    using capture_inserts_code[of d now rnd req d' r] by blast
  have b: "(\<forall>i<6. rnd1 i < 32 \<and> rnd2 i < 32) \<longrightarrow>
        length (generateRewardCode rnd1) = 8 \<and> take 2 (generateRewardCode rnd1) = ''CP''
        \<and> set (drop 2 (generateRewardCode rnd1)) \<subseteq> set chars
        \<and> (generateRewardCode rnd1 = generateRewardCode rnd2 \<longleftrightarrow> (\<forall>i<6. rnd1 i = rnd2 i))"
  proof
    assume r: "\<forall>i<6. rnd1 i < 32 \<and> rnd2 i < 32"
    then have "\<forall>i<6. rnd1 i < 32" by blast
    from generateRewardCode_shape[OF this] generateRewardCode_inj[OF r]
    show "length (generateRewardCode rnd1) = 8 \<and> take 2 (generateRewardCode rnd1) = ''CP''
        \<and> set (drop 2 (generateRewardCode rnd1)) \<subseteq> set chars
        \<and> (generateRewardCode rnd1 = generateRewardCode rnd2 \<longleftrightarrow> (\<forall>i<6. rnd1 i = rnd2 i))"
      by blast
  qed
  from a b show ?thesis by (rule conjI)
qed

theorem reward_codes_follow_draws_witness:
  "capture_txn_server db0 7 (\<lambda>i. i) req_ann = Inr (db_ann, res_ann)
   \<and> (\<exists>cap. captures db_ann = captures db0 @ [cap]
         \<and> reward_code cap = generateRewardCode (\<lambda>i. i))
   \<and> generateRewardCode (\<lambda>i. i + 1) \<noteq> generateRewardCode (\<lambda>i. i)
   \<and> length (generateRewardCode (\<lambda>i. i + 1)) = 8"
proof -
  note t = reward_codes_follow_draws[of db0 7 "\<lambda>i. i" req_ann db_ann res_ann
      "\<lambda>i. i + 1" "\<lambda>i. i"]
  have r: "\<forall>i<6. i + 1 < (32::nat) \<and> i < 32" by simp
  have ne: "\<not> (\<forall>i<6. i + 1 = (i::nat))" by (simp add: exI[of _ 0])
  from t txn_ann have "\<exists>cap. captures db_ann = captures db0 @ [cap]
         \<and> reward_code cap = generateRewardCode (\<lambda>i. i)"
    by blast
  moreover from t r ne have "generateRewardCode (\<lambda>i. i + 1) \<noteq> generateRewardCode (\<lambda>i. i)"
    by blast
  moreover from t r have "length (generateRewardCode (\<lambda>i. i + 1)) = 8"
    by blast
  ultimately show ?thesis using txn_ann by blast
qed

text \<open>
  The claim as stated fails: two submissions with equal draws commit two capture rows
  with the same reward code.
\<close>

theorem duplicate_reward_code_counterexample:
  "snd (capture_server db0 7 (\<lambda>i. i) req_ann) = CaptureOk ''CPABCDEF'' True 1
   \<and> snd (capture_server db_ann 8 (\<lambda>i. i) req_bob) = CaptureOk ''CPABCDEF'' False 1
   \<and> map cap_id (captures (fst (capture_server db_ann 8 (\<lambda>i. i) req_bob))) = [1, 2]
   \<and> map reward_code (captures (fst (capture_server db_ann 8 (\<lambda>i. i) req_bob))) =
       [''CPABCDEF'', ''CPABCDEF'']"
  unfolding db_ann_def req_bob_def by code_simp

section \<open>The import batch\<close>

lemma try_result:
  assumes "\<not> st_failed st"
    and "import_row_try impId courseId src i row st = (st1, res)"
  shows "(case res of
            Inl e \<Rightarrow> st_failed st1
          | Inr u \<Rightarrow> \<not> st_failed st1 \<and> errors st1 = errors st
                \<and> newCustomers st1 + matchedCustomers st1 + skippedRows st1 =
                    newCustomers st + matchedCustomers st + skippedRows st + 1
                \<and> (\<exists>a. import_rows (st_db st1) = import_rows (st_db st) @ [a]
                       \<and> row_number a = i + 1 \<and> raw_data a = row
                       \<and> action a \<in> {''created'', ''matched'', ''skipped''}))"
  using assms
  by (auto simp: import_row_try_def and_then_def query_def done_with_def Let_def
      stmt_select_by_email_def stmt_select_by_phone_def stmt_update_matched_def
      stmt_insert_created_def stmt_insert_import_row_def
      split: if_splits sum.splits prod.splits option.splits)


lemma query_failed:
  "st_failed st \<Longrightarrow> query stmt st = (st, Inl InFailedSqlTransaction)"
  by (simp add: query_def)

text \<open>
  An exception in the \<open>try\<close> block of a record leaves the loop with
  \<open>InFailedSqlTransaction\<close>, whatever records follow: the audit row of the \<open>catch\<close>
  block is never written.
\<close>

lemma import_row_exception_aborts:
  assumes "\<not> st_failed st"
    and "import_row_try impId courseId src i row st = (st1, Inl e)"
  shows "\<exists>st2. import_loop impId courseId src i (row # rest) st =
                 (st2, Inl InFailedSqlTransaction)
               \<and> import_rows (st_db st2) = import_rows (st_db st1)"
proof -
  from try_result[OF assms] have "st_failed st1" by simp
  then show ?thesis using assms(2) by (simp add: query_failed)
qed

lemma import_loop_result:
  assumes "\<not> st_failed st"
    and "import_loop impId courseId src i rows st = (st', res)"
  shows "(case res of
            Inl e \<Rightarrow> e = InFailedSqlTransaction \<and> st_failed st'
          | Inr u \<Rightarrow> \<not> st_failed st' \<and> errors st' = errors st
                \<and> newCustomers st' + matchedCustomers st' + skippedRows st' =
                    newCustomers st + matchedCustomers st + skippedRows st + length rows
                \<and> (\<exists>audit. import_rows (st_db st') = import_rows (st_db st) @ audit
                       \<and> map row_number audit = [i + 1 ..< i + 1 + length rows]
                       \<and> map raw_data audit = rows
                       \<and> (\<forall>a \<in> set audit.
                             action a \<in> {''created'', ''matched'', ''skipped''})))"
  using assms
proof (induction rows arbitrary: st i)
  case Nil
  then show ?case by auto
next
  case (Cons row rest)
  obtain st1 r1 where try1: "import_row_try impId courseId src i row st = (st1, r1)"
    by (cases "import_row_try impId courseId src i row st") auto
  note tr = try_result[OF Cons.prems(1) try1]
  show ?case
  proof (cases r1)
    case (Inl rowError)
    with tr have f: "st_failed st1" by simp
    let ?st2 = "st1\<lparr>errors := errors st1 @ [(i + 1, error_message_of rowError)]\<rparr>"
    have "import_loop impId courseId src i (row # rest) st = (?st2, Inl InFailedSqlTransaction)"
      using try1 Inl f by (simp add: query_failed)
    with Cons.prems(2) have "st' = ?st2" "res = Inl InFailedSqlTransaction"
      by simp_all
    with f show ?thesis by simp
  next
    case (Inr u)
    with tr have ok: "\<not> st_failed st1" and er: "errors st1 = errors st"
      and cnt: "newCustomers st1 + matchedCustomers st1 + skippedRows st1 =
                    newCustomers st + matchedCustomers st + skippedRows st + 1"
      by simp_all
    from tr Inr obtain a where a: "import_rows (st_db st1) = import_rows (st_db st) @ [a]"
      "row_number a = i + 1" "raw_data a = row"
      "action a \<in> {''created'', ''matched'', ''skipped''}"
      by auto
    from Cons.prems(2) try1 Inr
    have rest: "import_loop impId courseId src (i + 1) rest st1 = (st', res)"
      by simp
    note ih = Cons.IH[OF ok rest]
    show ?thesis
    proof (cases res)
      case (Inl e)
      with ih show ?thesis by simp
    next
      case (Inr u')
      with ih have ok': "\<not> st_failed st'" and er': "errors st' = errors st1"
        and cnt': "newCustomers st' + matchedCustomers st' + skippedRows st' =
                    newCustomers st1 + matchedCustomers st1 + skippedRows st1 + length rest"
        by simp_all
      from ih Inr obtain audit where au:
        "import_rows (st_db st') = import_rows (st_db st1) @ audit"
        "map row_number audit = [i + 1 + 1 ..< i + 1 + 1 + length rest]"
        "map raw_data audit = rest"
        "\<forall>a \<in> set audit. action a \<in> {''created'', ''matched'', ''skipped''}"
        by auto
      have rows: "import_rows (st_db st') = import_rows (st_db st) @ (a # audit)"
        using a(1) au(1) by simp
      have "[i + 1 ..< i + 1 + length (row # rest)] =
              (i + 1) # [i + 1 + 1 ..< i + 1 + 1 + length rest]"
        by (subst upt_conv_Cons) simp_all
      then have nums: "map row_number (a # audit) = [i + 1 ..< i + 1 + length (row # rest)]"
        using a(2) au(2) by (simp only: list.map)
      have raws: "map raw_data (a # audit) = row # rest"
        using a(3) au(3) by simp
      have acts: "\<forall>x \<in> set (a # audit). action x \<in> {''created'', ''matched'', ''skipped''}"
        using a(4) au(4) by simp
      from rows nums raws acts
      have "\<exists>audit. import_rows (st_db st') = import_rows (st_db st) @ audit
                       \<and> map row_number audit = [i + 1 ..< i + 1 + length (row # rest)]
                       \<and> map raw_data audit = row # rest
                       \<and> (\<forall>a \<in> set audit.
                             action a \<in> {''created'', ''matched'', ''skipped''})"
        by - (rule exI[of _ "a # audit"], (intro conjI; assumption))
      with ok' er' er cnt cnt' Inr show ?thesis by simp
    qed
  qed
qed


lemma post_import_steps:
  assumes "post_import d now slugParam src file = (d', ImportOk stats)"
  shows "\<exists>f courseId s impId d1 st2.
           file = Some f
         \<and> import_loop impId courseId s 0 (records f)
              \<lparr>st_db = d1, st_failed = False, newCustomers = 0, matchedCustomers = 0,
               skippedRows = 0, errors = []\<rparr> = (st2, Inr ())
         \<and> import_rows d1 = import_rows d
         \<and> import_rows d' = import_rows (st_db st2)
         \<and> \<not> st_failed st2
         \<and> totalRows stats = length (records f)
         \<and> stat_newCustomers stats = newCustomers st2
         \<and> stat_matchedCustomers stats = matchedCustomers st2
         \<and> stat_skippedRows stats = skippedRows st2
         \<and> stat_errors stats = length (errors st2)"
  using assms
  apply (auto simp: post_import_def import_txn_def and_then_def query_def done_with_def
      stmt_insert_import_def stmt_complete_import_def Let_def
      split: option.splits prod.splits sum.splits if_splits)
   apply ((intro exI conjI, assumption, simp_all)[1])+
  done

text \<open>
  What holds of a batch that completes: the handler has written exactly one audit
  row per input record, numbered from 1 in the order of the file, none of them with
  the outcome \<open>error\<close>; its error list is empty and created + matched + skipped is the
  number of records.
\<close>

lemma import_completed_batch:
  assumes "post_import d now slugParam src file = (d', ImportOk stats)"
  shows "stat_errors stats = 0
       \<and> stat_newCustomers stats + stat_matchedCustomers stats + stat_skippedRows stats
           = totalRows stats
       \<and> (\<exists>f audit. file = Some f \<and> totalRows stats = length (records f)
            \<and> import_rows d' = import_rows d @ audit
            \<and> map row_number audit = [1 ..< 1 + length (records f)]
            \<and> map raw_data audit = records f
            \<and> (\<forall>a \<in> set audit. action a \<in> {''created'', ''matched'', ''skipped''}))"
proof -
  from post_import_steps[OF assms] obtain f courseId s impId d1 st2 where
    fl: "file = Some f"
    and loop: "import_loop impId courseId s 0 (records f)
              \<lparr>st_db = d1, st_failed = False, newCustomers = 0, matchedCustomers = 0,
               skippedRows = 0, errors = []\<rparr> = (st2, Inr ())"
    and d1: "import_rows d1 = import_rows d"
    and d': "import_rows d' = import_rows (st_db st2)"
    and stats: "totalRows stats = length (records f)"
      "stat_newCustomers stats = newCustomers st2"
      "stat_matchedCustomers stats = matchedCustomers st2"
      "stat_skippedRows stats = skippedRows st2"
      "stat_errors stats = length (errors st2)"
    by blast
  let ?st1 = "\<lparr>st_db = d1, st_failed = False, newCustomers = 0, matchedCustomers = 0,
               skippedRows = 0, errors = []\<rparr>"
  have nf: "\<not> st_failed ?st1" by simp
  from import_loop_result[OF nf loop]
  have er: "errors st2 = []"
    and cnt: "newCustomers st2 + matchedCustomers st2 + skippedRows st2 = length (records f)"
    and au: "\<exists>audit. import_rows (st_db st2) = import_rows d1 @ audit
                       \<and> map row_number audit = [0 + 1 ..< 0 + 1 + length (records f)]
                       \<and> map raw_data audit = records f
                       \<and> (\<forall>a \<in> set audit.
                             action a \<in> {''created'', ''matched'', ''skipped''})"
    by simp_all
  from au obtain audit where a: "import_rows (st_db st2) = import_rows d1 @ audit"
    "map row_number audit = [0 + 1 ..< 0 + 1 + length (records f)]"
    "map raw_data audit = records f"
    "\<forall>a \<in> set audit. action a \<in> {''created'', ''matched'', ''skipped''}"
    by blast
  have r1: "import_rows d' = import_rows d @ audit" using a(1) d1 d' by simp
  have r2: "map row_number audit = [1 ..< 1 + length (records f)]" using a(2) by simp
  have "\<exists>f audit. file = Some f \<and> totalRows stats = length (records f)
            \<and> import_rows d' = import_rows d @ audit
            \<and> map row_number audit = [1 ..< 1 + length (records f)]
            \<and> map raw_data audit = records f
            \<and> (\<forall>a \<in> set audit. action a \<in> {''created'', ''matched'', ''skipped''})"
    using fl stats(1) r1 r2 a(3) a(4)
    by - (rule exI[of _ f], rule exI[of _ audit], (intro conjI; assumption))
  then show ?thesis using er cnt stats by simp
qed

text \<open>
  C7 says that a per-row processing exception is recorded with the outcome \<open>error\<close> on
  that row's audit entry and that processing continues with the next row. The handler
  does not reach that: at the three records of \<open>csv_clash\<close> the first two records
  alone are imported (two customers created); with the third record, whose e-mail
  matches the first customer and whose phone belongs to the second, the \<open>UPDATE\<close>
  violates \<open>unique_phone_per_course\<close>, the audit \<open>INSERT\<close> of the \<open>catch\<close> block is
  refused because the transaction is in the failed state, and the handler rolls the
  whole batch back and answers with status 500: no audit row, no customer and no
  counter of the batch is kept.
\<close>

theorem import_row_error_aborts_batch:
  "snd (post_import db0 3 None (Some ''generic'')
          (Some (upload_clash\<lparr>records := take 2 csv_clash\<rparr>))) =
     ImportOk \<lparr>importId = 1, totalRows = 2, stat_newCustomers = 2, stat_matchedCustomers = 0,
               stat_skippedRows = 0, stat_errors = 0\<rparr>
   \<and> st_failed st_two = False
   \<and> map email (customers (st_db st_two)) = [Some ''a@x.com'', None]
   \<and> map phone (customers (st_db st_two)) = [None, Some ''8435551234'']
   \<and> snd (import_row_try 1 1 ''generic'' 2 (csv_clash ! 2) st_two) =
       Inl (UniqueViolation ''unique_phone_per_course'')
   \<and> post_import db0 3 None (Some ''generic'') (Some upload_clash) =
       (db0, ImportFailed
          ''current transaction is aborted, commands ignored until end of transaction block'')"
  unfolding upload_clash_def csv_clash_def st_two_def by code_simp

section \<open>The prospects listing\<close>

lemma count_list_insort_key:
  "count_list (insort_key f x ys) c = count_list (x # ys) c"
  by (induction ys) auto

lemma count_list_sort_key: "count_list (sort_key f xs) c = count_list xs c"
  by (induction xs) (simp_all add: count_list_insort_key)

lemma count_list_filter:
  "count_list (filter P xs) c = (if P c then count_list xs c else 0)"
  by (induction xs) simp_all

lemma insort_key_lex:
  fixes f :: "'a \<Rightarrow> int" and g :: "'a \<Rightarrow> int"
  assumes "sorted_wrt (\<lambda>a b. f a < f b \<or> (f a = f b \<and> g a \<le> g b)) ys"
    and "\<forall>y \<in> set ys. g x \<le> g y"
  shows "sorted_wrt (\<lambda>a b. f a < f b \<or> (f a = f b \<and> g a \<le> g b)) (insort_key f x ys)"
  using assms
proof (induction ys)
  case Nil
  then show ?case by simp
next
  case (Cons y ys)
  show ?case
  proof (cases "f x \<le> f y")
    case True
    have "\<forall>z \<in> set (y # ys). f x < f z \<or> (f x = f z \<and> g x \<le> g z)"
    proof
      fix z assume z: "z \<in> set (y # ys)"
      then have "f y \<le> f z" using Cons.prems(1) by auto
      with True have "f x \<le> f z" by simp
      moreover from z Cons.prems(2) have "g x \<le> g z" by blast
      ultimately show "f x < f z \<or> (f x = f z \<and> g x \<le> g z)" by auto
    qed
    with True Cons.prems(1) show ?thesis by simp
  next
    case False
    from Cons.prems have ih: "sorted_wrt (\<lambda>a b. f a < f b \<or> (f a = f b \<and> g a \<le> g b))
                                (insort_key f x ys)"
      by (intro Cons.IH) simp_all
    have "\<forall>z \<in> set (insort_key f x ys). f y < f z \<or> (f y = f z \<and> g y \<le> g z)"
      using False Cons.prems(1) by (auto simp: set_insort_key)
    with False ih show ?thesis by simp
  qed
qed

lemma sort_key_lex:
  fixes f :: "'a \<Rightarrow> int" and g :: "'a \<Rightarrow> int"
  assumes "sorted (map g xs)"
  shows "sorted_wrt (\<lambda>a b. f a < f b \<or> (f a = f b \<and> g a \<le> g b)) (sort_key f xs)"
  using assms
proof (induction xs)
  case Nil
  then show ?case by simp
next
  case (Cons x xs)
  from Cons.prems have s: "sorted (map g xs)" and le: "\<forall>y \<in> set xs. g x \<le> g y" by simp_all
  from le have "\<forall>y \<in> set (sort_key f xs). g x \<le> g y" by simp
  from insort_key_lex[OF Cons.IH[OF s] this] show ?case by simp
qed

lemma sorted_wrt_unique:
  assumes "sorted_wrt R xs" and "sorted_wrt R ys"
    and "\<forall>c. count_list xs c = count_list ys c"
    and "\<forall>a \<in> set xs. \<forall>b \<in> set xs. R a b \<and> R b a \<longrightarrow> a = b"
  shows "xs = ys"
  using assms
proof (induction xs arbitrary: ys)
  case Nil
  then have "\<forall>c. count_list ys c = 0" by simp
  then have "set ys = {}" by (simp add: count_list_0_iff)
  then show ?case by simp
next
  case (Cons x xs)
  have sets: "set ys = set (x # xs)"
  proof -
    have "\<And>c. c \<in> set ys \<longleftrightarrow> c \<in> set (x # xs)"
      using Cons.prems(3) count_list_0_iff[of ys] count_list_0_iff[of "x # xs"] by metis
    then show ?thesis by blast
  qed
  then obtain y ys' where ys: "ys = y # ys'" by (cases ys) auto
  have xy: "x = y"
  proof (rule ccontr)
    assume ne: "x \<noteq> y"
    with sets ys have "x \<in> set ys'" and "y \<in> set xs" by auto
    with Cons.prems(1,2) ys have "R y x" and "R x y" by auto
    moreover have "x \<in> set (x # xs)" and "y \<in> set (x # xs)" using \<open>y \<in> set xs\<close> by simp_all
    ultimately have "x = y" using Cons.prems(4) by blast
    with ne show False by simp
  qed
  have "xs = ys'"
  proof (rule Cons.IH)
    show "sorted_wrt R xs" using Cons.prems(1) by simp
    show "sorted_wrt R ys'" using Cons.prems(2) ys by simp
    show "\<forall>c. count_list xs c = count_list ys' c"
    proof
      fix c
      from Cons.prems(3) have "count_list (x # xs) c = count_list (y # ys') c" by (simp add: ys)
      then show "count_list xs c = count_list ys' c" by (simp add: xy split: if_splits)
    qed
    show "\<forall>a \<in> set xs. \<forall>b \<in> set xs. R a b \<and> R b a \<longrightarrow> a = b"
      using Cons.prems(4) by simp
  qed
  with xy ys show ?case by simp
qed

lemma prospects_ordered:
  "sorted_wrt (\<lambda>a b. membership_score a > membership_score b
                     \<or> (membership_score a = membership_score b \<and> visit_count a \<ge> visit_count b))
     (sort_key (\<lambda>c. - membership_score c) (sort_key (\<lambda>c. - visit_count c) rows))"
proof -
  have "sorted (map (\<lambda>c. - visit_count c) (sort_key (\<lambda>c. - visit_count c) rows))"
    by (rule sorted_sort_key)
  from sort_key_lex[OF this, of "\<lambda>c. - membership_score c"]
  show ?thesis by simp
qed

lemma prospects_count:
  "count_list (sort_key (\<lambda>c. - membership_score c)
                 (sort_key (\<lambda>c. - visit_count c) (prospect_rows d slug))) c =
     (if in_course d slug c \<and> is_local c = Some True \<and> 50 \<le> membership_score c
      then count_list (customers d) c else 0)"
  by (simp add: count_list_sort_key prospect_rows_def count_list_filter)

lemma prospects_rows:
  "map fst (get_prospects d slugParam limit) =
     take (case limit of None \<Rightarrow> 20 | Some l \<Rightarrow> l)
       (sort_key (\<lambda>c. - membership_score c)
          (sort_key (\<lambda>c. - visit_count c)
             (prospect_rows d (case slugParam of None \<Rightarrow> ''crescent-pointe'' | Some s \<Rightarrow> s))))"
  by (simp add: get_prospects_def Let_def comp_def take_map)

lemma prospect_rows_set:
  "c \<in> set (prospect_rows d slug) \<longleftrightarrow>
     c \<in> set (customers d) \<and> in_course d slug c \<and> is_local c = Some True
     \<and> membership_score c \<ge> 50"
  by (auto simp: prospect_rows_def)

lemma db_three_rows:
  "customers db_three = [row_dan, row_ann, row_cat]"
  "courses db_three = [(''crescent-pointe'', 1)]"
  "length (filter (\<lambda>cap. customer_id cap = Some (cust_id row_ann)) (captures db_three)) = 1"
  "length (filter (\<lambda>cap. customer_id cap = Some (cust_id row_cat)) (captures db_three)) = 2"
  unfolding db_three_def row_dan_def row_ann_def row_cat_def db0_def req_dan_def req_ann_def
    req_cat_def
  by code_simp+

lemma db_two_rows:
  "customers db_two = [cust_max\<lparr>first_time_visitor := Some True, visit_count := 1,
                                membership_score := 80, is_membership_prospect := True\<rparr>,
                       row_vic]"
  "courses db_two = [(''crescent-pointe'', 1)]"
  unfolding db_two_def row_vic_def db0_def req_vic_def req_ann_def cust_max_def
  by code_simp+

text \<open>
  C8, as amended. \<open>GET /api/prospects\<close> lists only customers of the course with
  \<open>is_local = true\<close> and \<open>membership_score >= 50\<close>, and lists every such customer when
  there are no more of them than the limit (20 unless given). The listing is the
  first \<open>limit\<close> entries of an arrangement of exactly these customers in which the
  score never increases and, among equal scores, the visit count never increases,
  each entry paired with the number of the customer's captures. The persisted
  \<open>is_membership_prospect\<close> flag takes no part in the listing.
\<close>

theorem prospects_listing:
  "(\<forall>c. c \<in> fst ` set (get_prospects d slugParam limit) \<longrightarrow>
        c \<in> set (customers d)
        \<and> in_course d (case slugParam of None \<Rightarrow> ''crescent-pointe'' | Some s \<Rightarrow> s) c
        \<and> is_local c = Some True \<and> membership_score c \<ge> 50)
   \<and> (length (prospect_rows d (case slugParam of None \<Rightarrow> ''crescent-pointe'' | Some s \<Rightarrow> s))
         \<le> (case limit of None \<Rightarrow> 20 | Some l \<Rightarrow> l) \<longrightarrow>
       (\<forall>c. c \<in> set (customers d)
            \<and> in_course d (case slugParam of None \<Rightarrow> ''crescent-pointe'' | Some s \<Rightarrow> s) c
            \<and> is_local c = Some True \<and> membership_score c \<ge> 50 \<longrightarrow>
            c \<in> fst ` set (get_prospects d slugParam limit)))
   \<and> (\<exists>ordered.
         (\<forall>c. count_list ordered c =
                (if in_course d (case slugParam of None \<Rightarrow> ''crescent-pointe'' | Some s \<Rightarrow> s) c
                    \<and> is_local c = Some True \<and> membership_score c \<ge> 50
                 then count_list (customers d) c else 0))
         \<and> sorted_wrt (\<lambda>a b. membership_score a > membership_score b
                              \<or> (membership_score a = membership_score b
                                  \<and> visit_count a \<ge> visit_count b)) ordered
         \<and> get_prospects d slugParam limit =
             map (\<lambda>c. (c, length (filter (\<lambda>cap. customer_id cap = Some (cust_id c))
                                     (captures d))))
               (take (case limit of None \<Rightarrow> 20 | Some l \<Rightarrow> l) ordered))"
proof -
  let ?slug = "case slugParam of None \<Rightarrow> ''crescent-pointe'' | Some s \<Rightarrow> s"
  let ?n = "case limit of None \<Rightarrow> 20 | Some l \<Rightarrow> l"
  let ?sorted = "sort_key (\<lambda>c. - membership_score c)
          (sort_key (\<lambda>c. - visit_count c) (prospect_rows d ?slug))"
  have img: "fst ` set (get_prospects d slugParam limit) = set (take ?n ?sorted)"
    using prospects_rows[of d slugParam limit] by (metis set_map)
  have sub: "set (take ?n ?sorted) \<subseteq> set (prospect_rows d ?slug)"
    using set_take_subset[of ?n ?sorted] by simp
  have a: "\<forall>c. c \<in> fst ` set (get_prospects d slugParam limit) \<longrightarrow>
        c \<in> set (customers d) \<and> in_course d ?slug c
        \<and> is_local c = Some True \<and> membership_score c \<ge> 50"
    using sub prospect_rows_set[of _ d ?slug] unfolding img by blast
  have b: "length (prospect_rows d ?slug) \<le> ?n \<longrightarrow>
       (\<forall>c. c \<in> set (customers d) \<and> in_course d ?slug c
            \<and> is_local c = Some True \<and> membership_score c \<ge> 50 \<longrightarrow>
            c \<in> fst ` set (get_prospects d slugParam limit))"
  proof (intro impI allI)
    fix c
    assume len: "length (prospect_rows d ?slug) \<le> ?n"
      and c: "c \<in> set (customers d) \<and> in_course d ?slug c
            \<and> is_local c = Some True \<and> membership_score c \<ge> 50"
    from len have "take ?n ?sorted = ?sorted" by simp
    then have "set (take ?n ?sorted) = set (prospect_rows d ?slug)" by simp
    with c show "c \<in> fst ` set (get_prospects d slugParam limit)"
      unfolding img using prospect_rows_set[of c d ?slug] by blast
  qed
  have c1: "\<forall>c. count_list ?sorted c =
                (if in_course d ?slug c \<and> is_local c = Some True \<and> membership_score c \<ge> 50
                 then count_list (customers d) c else 0)"
    using prospects_count[of d ?slug] by blast
  have c2: "sorted_wrt (\<lambda>a b. membership_score a > membership_score b
                              \<or> (membership_score a = membership_score b
                                  \<and> visit_count a \<ge> visit_count b)) ?sorted"
    by (rule prospects_ordered)
  have c3: "get_prospects d slugParam limit =
             map (\<lambda>c. (c, length (filter (\<lambda>cap. customer_id cap = Some (cust_id c))
                                     (captures d))))
               (take ?n ?sorted)"
    by (simp add: get_prospects_def Let_def)
  from c1 c2 c3 have c: "\<exists>ordered.
         (\<forall>c. count_list ordered c =
                (if in_course d ?slug c \<and> is_local c = Some True \<and> membership_score c \<ge> 50
                 then count_list (customers d) c else 0))
         \<and> sorted_wrt (\<lambda>a b. membership_score a > membership_score b
                              \<or> (membership_score a = membership_score b
                                  \<and> visit_count a \<ge> visit_count b)) ordered
         \<and> get_prospects d slugParam limit =
             map (\<lambda>c. (c, length (filter (\<lambda>cap. customer_id cap = Some (cust_id c))
                                     (captures d))))
               (take ?n ordered)"
    by (intro exI[of _ ?sorted] conjI)
  from a b c show ?thesis by (intro conjI)
qed

theorem prospects_listing_witness:
  "get_prospects db_three None (Some 2) = [(row_ann, 1), (row_cat, 2)]
   \<and> row_dan \<in> fst ` set (get_prospects db_three None None)
   \<and> row_vic \<notin> fst ` set (get_prospects db_two None None)"
proof -
  let ?R = "\<lambda>a b. membership_score a > membership_score b
                  \<or> (membership_score a = membership_score b \<and> visit_count a \<ge> visit_count b)"
  let ?q3 = "\<lambda>c. in_course db_three ''crescent-pointe'' c
                  \<and> is_local c = Some True \<and> membership_score c \<ge> 50"
  have q: "?q3 row_dan" "?q3 row_ann" "?q3 row_cat"
    by (simp_all add: in_course_def db_three_rows(2) row_dan_def row_ann_def row_cat_def)
  have ne: "row_dan \<noteq> row_ann" "row_dan \<noteq> row_cat" "row_ann \<noteq> row_cat"
    by (simp_all add: row_dan_def row_ann_def row_cat_def)
  have "\<exists>ordered.
         (\<forall>c. count_list ordered c = (if ?q3 c then count_list (customers db_three) c else 0))
         \<and> sorted_wrt ?R ordered
         \<and> get_prospects db_three None (Some 2) =
             map (\<lambda>c. (c, length (filter (\<lambda>cap. customer_id cap = Some (cust_id c))
                                     (captures db_three))))
               (take 2 ordered)"
    using prospects_listing[of db_three None "Some 2"] by (simp only: option.case)
  then obtain ordered where
    cnt: "\<forall>c. count_list ordered c = (if ?q3 c then count_list (customers db_three) c else 0)"
    and srt: "sorted_wrt ?R ordered"
    and lst: "get_prospects db_three None (Some 2) =
             map (\<lambda>c. (c, length (filter (\<lambda>cap. customer_id cap = Some (cust_id c))
                                     (captures db_three))))
               (take 2 ordered)"
    by blast
  have "[row_ann, row_cat, row_dan] = ordered"
  proof (rule sorted_wrt_unique[where R = ?R])
    show "sorted_wrt ?R [row_ann, row_cat, row_dan]"
      by (simp add: row_dan_def row_ann_def row_cat_def)
    show "sorted_wrt ?R ordered" by (rule srt)
    show "\<forall>c. count_list [row_ann, row_cat, row_dan] c = count_list ordered c"
    proof
      fix c
      show "count_list [row_ann, row_cat, row_dan] c = count_list ordered c"
        using cnt[rule_format, of c] q by (auto simp: db_three_rows(1))
    qed
    show "\<forall>a \<in> set [row_ann, row_cat, row_dan]. \<forall>b \<in> set [row_ann, row_cat, row_dan].
            ?R a b \<and> ?R b a \<longrightarrow> a = b"
      by (simp add: row_dan_def row_ann_def row_cat_def)
  qed
  then have o: "take 2 ordered = [row_ann, row_cat]"
    by (auto simp: numeral_2_eq_2)
  have first: "get_prospects db_three None (Some 2) = [(row_ann, 1), (row_cat, 2)]"
    unfolding lst o by (simp add: db_three_rows(3,4))
  have len: "length (prospect_rows db_three ''crescent-pointe'') \<le> 20"
    by (simp add: prospect_rows_def db_three_rows(1))
  have "length (prospect_rows db_three ''crescent-pointe'') \<le> 20 \<longrightarrow>
       (\<forall>c. c \<in> set (customers db_three) \<and> ?q3 c \<longrightarrow>
            c \<in> fst ` set (get_prospects db_three None None))"
    using prospects_listing[of db_three None None] by (simp only: option.case) blast
  with len q(1) have second: "row_dan \<in> fst ` set (get_prospects db_three None None)"
    by (simp add: db_three_rows(1))
  have "\<forall>c. c \<in> fst ` set (get_prospects db_two None None) \<longrightarrow> is_local c = Some True"
    using prospects_listing[of db_two None None] by (simp only: option.case) blast
  moreover have "is_local row_vic \<noteq> Some True" by (simp add: row_vic_def)
  ultimately have third: "row_vic \<notin> fst ` set (get_prospects db_two None None)" by blast
  from first second third show ?thesis by (intro conjI)
qed

text \<open>
  The claim as stated fails: the visitor is a customer of the course with a score of
  50, and the listing holds the local customer only.
\<close>

theorem prospects_not_all_counterexample:
  "map cust_id (customers db_two) = [1, 2]
   \<and> row_vic \<in> set (customers db_two)
   \<and> in_course db_two ''crescent-pointe'' row_vic
   \<and> membership_score row_vic = 50
   \<and> calculateMembershipScore row_vic = 50
   \<and> is_local row_vic = Some False
   \<and> map (cust_id \<circ> fst) (get_prospects db_two None None) = [1]"
  unfolding db_two_def row_vic_def db0_def req_vic_def req_ann_def
  by code_simp

section \<open>Redemption among other requests\<close>

























end
